theory Spec2Isabelle
  imports Main "HOL-Library.AList"
begin

section \<open>JavaScript values\<close>

text \<open>
  The values that flow through the store: state slices, payloads, option objects and
  thrown errors. A number is given by its rendering \<open>String(n)\<close>, which is what the
  store reads of a number besides its truth value: \<open>0\<close> and \<open>NaN\<close> are the numbers
  that are falsy. An object is one that an object literal makes: the ordered list of
  its own properties (keys distinct), over the members of \<open>Object.prototype\<close>. Of the
  inherited members the model has the keys, which the operator \<open>in\<close> finds; their
  values are functions of the runtime and no values of the model. The length and the
  characters of a string are not modelled as its properties, and an array stored in
  the state is an object with index keys.
\<close>

datatype jsval =
    Undefined
  | Null
  | Boolean bool
  | Number string
  | String string
  | Object "(string \<times> jsval) list"

text \<open>The errors the engine itself raises, as thrown values.\<close>

definition TypeError :: jsval where
  "TypeError = Object [(''name'', String ''TypeError'')]"

definition Error :: "string \<Rightarrow> jsval" where
  "Error msg = Object [(''name'', String ''Error''), (''message'', String msg)]"

fun truthy :: "jsval \<Rightarrow> bool" where
  "truthy Undefined = False"
| "truthy Null = False"
| "truthy (Boolean b) = b"
| "truthy (Number r) = (r \<noteq> ''0'' \<and> r \<noteq> ''NaN'')"
| "truthy (String s) = (s \<noteq> [])"
| "truthy (Object ps) = True"

text \<open>\<open>v[k]\<close>: reading a property of \<open>undefined\<close> or \<open>null\<close> throws. An own
  property is read; a key that the object does not have gives \<open>undefined\<close>, also
  where it names an inherited member, whose value the model does not have.\<close>

fun get_prop :: "jsval \<Rightarrow> string \<Rightarrow> jsval + jsval" where
  "get_prop Undefined k = Inl TypeError"
| "get_prop Null k = Inl TypeError"
| "get_prop (Object ps) k = Inr (case map_of ps k of None \<Rightarrow> Undefined | Some v \<Rightarrow> v)"
| "get_prop v k = Inr Undefined"

text \<open>The keys of the members that an object inherits from \<open>Object.prototype\<close>.\<close>

definition Object_prototype :: "string list" where
  "Object_prototype =
     [''constructor'', ''__defineGetter__'', ''__defineSetter__'', ''hasOwnProperty'',
      ''__lookupGetter__'', ''__lookupSetter__'', ''isPrototypeOf'',
      ''propertyIsEnumerable'', ''toString'', ''valueOf'', ''__proto__'',
      ''toLocaleString'']"

text \<open>\<open>k in v\<close>: throws unless \<open>v\<close> is an object; it finds the own properties
  and the inherited ones.\<close>

fun has_prop :: "string \<Rightarrow> jsval \<Rightarrow> jsval + bool" where
  "has_prop k (Object ps) = Inr (map_of ps k \<noteq> None \<or> k \<in> set Object_prototype)"
| "has_prop k v = Inl TypeError"

text \<open>\<open>v[k] = x\<close> in strict-mode code (the sources are ES modules): throws on anything
  that is not an object. A new key goes to the end, an existing key keeps its place.
  The key \<open>__proto__\<close> is taken as any other key: that an assignment to it sets the
  prototype of the object is not modelled.\<close>

fun set_prop :: "jsval \<Rightarrow> string \<Rightarrow> jsval \<Rightarrow> jsval + jsval" where
  "set_prop (Object ps) k x = Inr (Object (AList.update k x ps))"
| "set_prop v k x = Inl TypeError"

text \<open>\<open>delete v[k]\<close>: throws on \<open>undefined\<close> and \<open>null\<close>, does nothing on other
  primitives.\<close>

fun delete_prop :: "jsval \<Rightarrow> string \<Rightarrow> jsval + jsval" where
  "delete_prop Undefined k = Inl TypeError"
| "delete_prop Null k = Inl TypeError"
| "delete_prop (Object ps) k = Inr (Object (AList.delete k ps))"
| "delete_prop v k = Inr v"

text \<open>\<open>String(v)\<close>, as a template string or a property key applies it. An object
  is rendered as one that has no \<open>toString\<close> of its own.\<close>

fun toString :: "jsval \<Rightarrow> string" where
  "toString Undefined = ''undefined''"
| "toString Null = ''null''"
| "toString (Boolean b) = (if b then ''true'' else ''false'')"
| "toString (Number r) = r"
| "toString (String s) = s"
| "toString (Object ps) = ''[object Object]''"

text \<open>\<open>path.join(sep)\<close>.\<close>

fun join :: "string \<Rightarrow> string list \<Rightarrow> string" where
  "join sep [] = []"
| "join sep [x] = x"
| "join sep (x # y # ys) = x @ sep @ join sep (y # ys)"

section \<open>store-util.js: getNestedState\<close>

text \<open>\<open>path.reduce((state, key) => state[key], state)\<close>\<close>

fun getNestedState :: "jsval \<Rightarrow> string list \<Rightarrow> jsval + jsval" where
  "getNestedState state [] = Inr state"
| "getNestedState state (key # path) =
     (case get_prop state key of
        Inl e \<Rightarrow> Inl e
      | Inr v \<Rightarrow> getNestedState v path)"

section \<open>Module\<close>

text \<open>
  User-supplied functions (mutation handlers, action handlers, getters, subscribers,
  plugins) are named; what a named function does when called is given by an
  environment, see below.
\<close>

type_synonym fn = string

text \<open>An action is declared as a function, or as an object \<open>{ root, handler }\<close>.\<close>

datatype action_def =
    ActionFn fn
  | ActionObj (aroot: bool) (ahandler: fn)

text \<open>
  The raw definition a module is created from:
  \<open>{ state, namespaced, mutations, actions, getters, modules }\<close>. The state is the
  value the definition gives (or its factory returns). Every declared mutation and
  getter is a function and every action a function or an object with a handler
  function: the type admits no other definition, so \<open>assertRawModule\<close> of
  module-collection.js accepts every raw module there is and is left out.
\<close>

datatype rawModule = RawModule
  (rstate: jsval)
  (rnamespaced: bool)
  (rmutations: "(string \<times> fn) list")
  (ractions: "(string \<times> action_def) list")
  (rgetters: "(string \<times> fn) list")
  (rmodules: "(string \<times> rawModule) list")

text \<open>
  The local context \<open>makeLocalContext(store, namespace, path)\<close> builds is a closure
  over the store, the namespace and the path; its \<open>dispatch\<close>, \<open>commit\<close>,
  \<open>getters\<close> and \<open>state\<close> members are computed from these two when they are used.
\<close>

record local =
  local_namespace :: string
  local_path :: "string list"

text \<open>
  Modelled from the spec: module.js is not among the sources. A Module holds its raw
  definition, the \<open>runtime\<close> flag, its materialized state and its children by local
  key; \<open>mcontext\<close> is the member \<open>context\<close> that \<open>installModule\<close> assigns.
\<close>

datatype module = Module
  (raw: rawModule)
  (runtime: bool)
  (mstate: jsval)
  (mcontext: "local option")
  (children: "(string \<times> module) list")

text \<open>Modelled from the spec: the constructor \<open>new Module(rawModule, runtime)\<close>; the
  state is materialized from the raw definition, there are no children yet.\<close>

definition new_Module :: "rawModule \<Rightarrow> bool \<Rightarrow> module" where
  "new_Module rawModule rt = Module rawModule rt (rstate rawModule) None []"

text \<open>Modelled from the spec: \<open>module.namespaced\<close> is the raw definition's flag.\<close>

definition namespaced :: "module \<Rightarrow> bool" where
  "namespaced m = rnamespaced (raw m)"

text \<open>Modelled from the spec: \<open>getChild\<close>, \<open>hasChild\<close>, \<open>addChild\<close> and
  \<open>removeChild\<close> are plain map operations; \<open>addChild\<close> on an existing key
  overwrites.\<close>

definition getChild :: "module \<Rightarrow> string \<Rightarrow> module option" where
  "getChild m key = map_of (children m) key"

definition hasChild :: "module \<Rightarrow> string \<Rightarrow> bool" where
  "hasChild m key = (map_of (children m) key \<noteq> None)"

definition addChild :: "string \<Rightarrow> module \<Rightarrow> module \<Rightarrow> module" where
  "addChild key c m =
     Module (raw m) (runtime m) (mstate m) (mcontext m) (AList.update key c (children m))"

definition removeChild :: "string \<Rightarrow> module \<Rightarrow> module" where
  "removeChild key m =
     Module (raw m) (runtime m) (mstate m) (mcontext m) (AList.delete key (children m))"

text \<open>Modelled from the spec: \<open>Module.update(newRawDefinition)\<close> replaces the
  mutation, action, getter and children definitions of the raw definition in place and
  leaves the materialized state untouched.\<close>

definition Module_update :: "rawModule \<Rightarrow> module \<Rightarrow> module" where
  "Module_update newRaw m =
     Module (RawModule (rstate (raw m)) (rnamespaced (raw m)) (rmutations newRaw)
               (ractions newRaw) (rgetters newRaw) (rmodules newRaw))
       (runtime m) (mstate m) (mcontext m) (children m)"

section \<open>module-collection.js\<close>

text \<open>
  \<open>get(path)\<close>: \<open>path.reduce((module, key) => module.getChild(key), this.root)\<close>.
  The accumulator is \<open>undefined\<close> (\<open>None\<close>) once a key is missing, and calling
  \<open>getChild\<close> on it throws.
\<close>

fun get_from :: "module option \<Rightarrow> string list \<Rightarrow> jsval + module option" where
  "get_from acc [] = Inr acc"
| "get_from None (key # path) = Inl TypeError"
| "get_from (Some m) (key # path) = get_from (getChild m key) path"

definition get :: "module \<Rightarrow> string list \<Rightarrow> jsval + module option" where
  "get root path = get_from (Some root) path"

text \<open>
  \<open>getNamespace(path)\<close>: the reduction carries the namespace, and the variable
  \<open>module\<close> walks down with it; reading \<open>namespaced\<close> of a missing child throws.
\<close>

fun getNamespace_from :: "module \<Rightarrow> string \<Rightarrow> string list \<Rightarrow> jsval + string" where
  "getNamespace_from m ns [] = Inr ns"
| "getNamespace_from m ns (key # path) =
     (case getChild m key of
        None \<Rightarrow> Inl TypeError
      | Some c \<Rightarrow> getNamespace_from c (ns @ (if namespaced c then key @ ''/'' else '''')) path)"

definition getNamespace :: "module \<Rightarrow> string list \<Rightarrow> jsval + string" where
  "getNamespace root path = getNamespace_from root '''' path"

text \<open>
  The namespace in the words of the specification: for each position of the path, from
  the root on, the key followed by the separator when the module that the path reaches
  at that position is flagged \<open>namespaced\<close>, and nothing otherwise.
\<close>

definition namespaced_at :: "module \<Rightarrow> string list \<Rightarrow> bool" where
  "namespaced_at root p =
     (case get root p of Inr (Some m) \<Rightarrow> namespaced m | _ \<Rightarrow> False)"

definition namespace_of_path :: "module \<Rightarrow> string list \<Rightarrow> string" where
  "namespace_of_path root p =
     concat (map (\<lambda>i. if namespaced_at root (take (Suc i) p) then p ! i @ ''/'' else '''')
                 [0..<length p])"

text \<open>
  \<open>register(path, rawModule, runtime)\<close>. \<open>this.root\<close> is \<open>None\<close> while it is
  undefined (inside the constructor). The new module replaces the root, or is added
  to the parent that \<open>get(path.slice(0, -1))\<close> finds (a parent that is missing
  throws); then the declared children are registered below it, in declared order.
\<close>

fun modify_at :: "string list \<Rightarrow> (module \<Rightarrow> module) \<Rightarrow> module \<Rightarrow> module" where
  "modify_at [] f m = f m"
| "modify_at (key # path) f m =
     (case getChild m key of
        None \<Rightarrow> m
      | Some c \<Rightarrow> Module (raw m) (runtime m) (mstate m) (mcontext m)
                   (AList.update key (modify_at path f c) (children m)))"

text \<open>\<open>path[path.length - 1]\<close>: \<open>undefined\<close> for the empty path, and a property key
  made from \<open>undefined\<close> is the string "undefined".\<close>

text \<open>The quotation marks of the console messages.\<close>

definition quote :: string where
  "quote = [CHR 0x27]"

definition dquote :: string where
  "dquote = [CHR 0x22]"

definition last_key :: "string list \<Rightarrow> string" where
  "last_key path = (if path = [] then ''undefined'' else last path)"

lemma size_rmodules:
  "Suc (2 * size_list (size_prod (\<lambda>_. 0) size) (rmodules r)) < 2 * size r"
  by (cases r) simp

function register :: "module option \<Rightarrow> string list \<Rightarrow> rawModule \<Rightarrow> bool \<Rightarrow> jsval + module"
  and register_modules ::
    "module \<Rightarrow> string list \<Rightarrow> (string \<times> rawModule) list \<Rightarrow> bool \<Rightarrow> jsval + module"
where
  "register root path rawModule rt =
     (let newModule = new_Module rawModule rt in
      case (if path = [] then Inr newModule
            else (case get_from root (butlast path) of
                    Inl e \<Rightarrow> Inl e
                  | Inr None \<Rightarrow> Inl TypeError
                  | Inr (Some parent) \<Rightarrow>
                      (case root of
                         None \<Rightarrow> Inl TypeError
                       | Some r \<Rightarrow> Inr (modify_at (butlast path) (addChild (last path) newModule) r))))
      of Inl e \<Rightarrow> Inl e
       | Inr r \<Rightarrow> register_modules r path (rmodules rawModule) rt)"
| "register_modules r path [] rt = Inr r"
| "register_modules r path ((key, rawChildModule) # rest) rt =
     (case register (Some r) (path @ [key]) rawChildModule rt of
        Inl e \<Rightarrow> Inl e
      | Inr r' \<Rightarrow> register_modules r' path rest rt)"
  by pat_completeness auto
termination
  by (relation "measure (\<lambda>x. case x of
          Inl (root, path, rawModule, rt) \<Rightarrow> 2 * size rawModule
        | Inr (r, path, ms, rt) \<Rightarrow> 2 * size_list (size_prod (\<lambda>_. 0) size) ms + 1)")
     (auto simp: size_rmodules)

text \<open>The constructor of ModuleCollection: \<open>this.register([], rawRootModule, false)\<close>.\<close>

definition new_ModuleCollection :: "rawModule \<Rightarrow> jsval + module" where
  "new_ModuleCollection rawRootModule = register None [] rawRootModule False"

datatype console_entry =
    ConsoleWarn string
  | ConsoleError string
  | ConsoleErrorValue jsval

text \<open>
  \<open>unregister(path)\<close>, on the tree and the build constant \<open>__DEV__\<close>: the new tree
  and what is written to the console.
\<close>

definition unregister ::
  "bool \<Rightarrow> module \<Rightarrow> string list \<Rightarrow> jsval + module \<times> console_entry list" where
  "unregister DEV root path =
     (case get root (butlast path) of
        Inl e \<Rightarrow> Inl e
      | Inr None \<Rightarrow> Inl TypeError
      | Inr (Some parent) \<Rightarrow>
          (let key = last_key path in
           case getChild parent key of
             None \<Rightarrow>
               Inr (root,
                 if DEV
                 then [ConsoleWarn (''[vuex] trying to unregister module '' @ quote @ key @ quote @
                                    '', which is not registered'')]
                 else [])
           | Some child \<Rightarrow>
               if \<not> runtime child then Inr (root, [])
               else Inr (modify_at (butlast path) (removeChild key) root, [])))"

definition isRegistered :: "module \<Rightarrow> string list \<Rightarrow> jsval + bool" where
  "isRegistered root path =
     (case get root (butlast path) of
        Inl e \<Rightarrow> Inl e
      | Inr None \<Rightarrow> Inr False
      | Inr (Some parent) \<Rightarrow> Inr (hasChild parent (last_key path)))"

text \<open>
  The function \<open>update(path, targetModule, newModule)\<close> of hot reloading. The
  \<open>return\<close> inside the loop over \<open>newModule.modules\<close> leaves this call only.
\<close>

function update :: "bool \<Rightarrow> string list \<Rightarrow> module \<Rightarrow> rawModule \<Rightarrow> module \<times> console_entry list"
  and update_modules ::
    "bool \<Rightarrow> string list \<Rightarrow> module \<Rightarrow> (string \<times> rawModule) list \<Rightarrow> module \<times> console_entry list"
where
  "update DEV path targetModule newModule =
     update_modules DEV path (Module_update newModule targetModule) (rmodules newModule)"
| "update_modules DEV path targetModule [] = (targetModule, [])"
| "update_modules DEV path targetModule ((key, newChild) # rest) =
     (case getChild targetModule key of
        None \<Rightarrow>
          (targetModule,
           if DEV
           then [ConsoleWarn (''[vuex] trying to add a new module '' @ quote @ key @ quote @
                              '' on hot reloading, manual reload is needed'')]
           else [])
      | Some child \<Rightarrow>
          (case update DEV (path @ [key]) child newChild of
             (child', w) \<Rightarrow>
               (case update_modules DEV path
                       (Module (raw targetModule) (runtime targetModule) (mstate targetModule)
                          (mcontext targetModule)
                          (AList.update key child' (children targetModule)))
                       rest of
                  (t, w') \<Rightarrow> (t, w @ w'))))"
  by pat_completeness auto
termination
  by (relation "measure (\<lambda>x. case x of
          Inl (DEV, path, targetModule, newModule) \<Rightarrow> 2 * size newModule
        | Inr (DEV, path, targetModule, ms) \<Rightarrow> 2 * size_list (size_prod (\<lambda>_. 0) size) ms + 1)")
     (auto simp: size_rmodules)

section \<open>Awaitables\<close>

text \<open>
  A promise is not run here: it is named by how it was made, and \<open>settlement\<close> tells
  how it ends. An instant is a position in the order of events after the call that
  made the promise. What a promise is fulfilled with is a value, or, from
  \<open>Promise.all\<close>, the array of what its inputs were fulfilled with.
\<close>

datatype fulfilment =
    Value jsval
  | Values "fulfilment list"

datatype settle =
    Pending
  | Fulfilled nat fulfilment
  | Rejected nat jsval

datatype promise =
    Settles settle
  | PromiseResolve jsval
  | PromiseCatch promise
  | PromiseAll "promise list"
  | NewPromise promise

text \<open>
  \<open>Settles x\<close> is a promise that user code made and that ends as \<open>x\<close> says;
  \<open>PromiseResolve res\<close> is \<open>Promise.resolve(res)\<close>; \<open>PromiseCatch res\<close> is
  \<open>res.catch(err => { ...; throw err })\<close>, which ends as \<open>res\<close> does;
  \<open>NewPromise result\<close> is the promise \<open>dispatch\<close> returns, whose executor
  resolves or rejects it from the two callbacks of \<open>result.then\<close>.
\<close>

text \<open>\<open>Promise.all\<close> rejects with the earliest rejection among its inputs (the
  leftmost among equal instants), is fulfilled once all inputs are, with the array of
  their values, and never settles otherwise.\<close>

fun earliest_rejection :: "settle list \<Rightarrow> (nat \<times> jsval) option" where
  "earliest_rejection [] = None"
| "earliest_rejection (Rejected t e # xs) =
     (case earliest_rejection xs of
        None \<Rightarrow> Some (t, e)
      | Some (t', e') \<Rightarrow> if t' < t then Some (t', e') else Some (t, e))"
| "earliest_rejection (x # xs) = earliest_rejection xs"

fun all_fulfilled :: "settle list \<Rightarrow> (nat \<times> fulfilment list) option" where
  "all_fulfilled [] = Some (0, [])"
| "all_fulfilled (Fulfilled t v # xs) =
     (case all_fulfilled xs of
        None \<Rightarrow> None
      | Some (t', vs) \<Rightarrow> Some (max t t', v # vs))"
| "all_fulfilled (x # xs) = None"

definition Promise_all :: "settle list \<Rightarrow> settle" where
  "Promise_all xs =
     (case earliest_rejection xs of
        Some (t, e) \<Rightarrow> Rejected t e
      | None \<Rightarrow>
          (case all_fulfilled xs of
             Some (t, vs) \<Rightarrow> Fulfilled t (Values vs)
           | None \<Rightarrow> Pending))"

fun settlement :: "promise \<Rightarrow> settle" where
  "settlement (Settles x) = x"
| "settlement (PromiseResolve res) = Fulfilled 0 (Value res)"
| "settlement (PromiseCatch res) = settlement res"
| "settlement (PromiseAll ps) = Promise_all (map settlement ps)"
| "settlement (NewPromise result) = settlement result"

text \<open>What a call returns: a plain value or an awaitable.\<close>

datatype result =
    Plain jsval
  | Awaitable promise

section \<open>The store\<close>

text \<open>
  The calls the store makes to user-supplied functions, with the arguments it passes.
  A mutation handler is called as \<open>handler.call(store, local.state, payload)\<close>; an
  action handler with the context object made from its local context (whose
  \<open>dispatch\<close>, \<open>commit\<close> and \<open>getters\<close> members are given by the local context
  itself, and whose getter values belong to the reactivity collaborator), the local
  state and the root state, and the payload; a mutation subscriber
  as \<open>sub(mutation, state)\<close>; an action subscriber as \<open>sub.before(action, state)\<close>,
  \<open>sub.after(action, state)\<close> or \<open>sub.error(action, state, error)\<close>; a plugin as
  \<open>plugin(store)\<close>.
\<close>

datatype call =
    MutationHandler fn local jsval jsval
  | ActionHandler fn local jsval jsval jsval
  | Subscriber fn jsval jsval
  | ActionSubscriber fn jsval jsval "jsval option"
  | Plugin fn

text \<open>
  An action subscriber is an object with optional \<open>before\<close>, \<open>after\<close> and
  \<open>error\<close> functions. The list of subscribers is searched for the object itself
  (\<open>indexOf\<close>), so a subscriber carries which object it is: one that the caller made
  and passed to \<open>subscribeAction\<close>, told from the caller's other objects by a number,
  or the object that \<open>subscribeAction\<close> made around a function, told by its rank
  among the objects made so.
\<close>

datatype object_id =
    Given nat
  | Made nat

record actionSubscriber =
  sub_object :: object_id
  sub_before :: "fn option"
  sub_after :: "fn option"
  sub_error :: "fn option"

text \<open>
  The fields of a Store, without the leading underscore of the private ones.
  \<open>DEV\<close> is the build constant \<open>__DEV__\<close>; \<open>console\<close> is what was written to the
  console; \<open>calls\<close> records each call the store has made to a user-supplied
  function, with the value of \<open>_committing\<close> at the moment of the call. The registries
  hold, for a wrapped handler, the handler and the local context the closure captured.
  \<open>modulesNamespaceMap\<close> refers to a module by its path. \<open>getters\<close> holds the keys
  defined on \<open>store.getters\<close> and \<open>makeLocalGettersCache\<close> the local keys of each
  cached proxy: the values of getters are computed by the reactivity collaborator,
  as are the effect scope and the strict-mode watcher, which are not modelled.
  \<open>state_data\<close> is \<open>_state.data\<close>, \<open>None\<close> while \<open>_state\<close> is undefined.
  \<open>devtoolHook\<close> tells whether \<open>_devtoolHook\<close> is set; the constructor leaves it
  unset. \<open>made\<close> counts the subscriber objects that \<open>subscribeAction\<close> has made.
\<close>

record store =
  DEV :: bool
  console :: "console_entry list"
  calls :: "(call \<times> bool) list"
  committing :: bool
  actions :: "(string \<times> (fn \<times> local) list) list"
  actionSubscribers :: "actionSubscriber list"
  mutations :: "(string \<times> (fn \<times> local) list) list"
  wrappedGetters :: "(string \<times> (fn \<times> local)) list"
  modules :: module
  modulesNamespaceMap :: "(string \<times> string list) list"
  subscribers :: "fn list"
  makeLocalGettersCache :: "(string \<times> string list) list"
  getters :: "string list"
  state_data :: "jsval option"
  strict :: bool
  devtoolHook :: bool
  made :: nat

text \<open>
  What a user-supplied function does when the store calls it: it may change the
  store, and it returns (\<open>Inr\<close>) or throws (\<open>Inl\<close>). The store's functions take
  the environment as their first argument. \<open>invoke\<close> makes the call and adds it to
  the record of calls, which is out of reach of the function called: the record of a
  store function lists the calls that this function makes itself, not those of a
  commit or dispatch that a user function makes in turn.
\<close>

type_synonym env = "call \<Rightarrow> store \<Rightarrow> (jsval + result) \<times> store"

definition invoke :: "env \<Rightarrow> call \<Rightarrow> store \<Rightarrow> (jsval + result) \<times> store" where
  "invoke env c s =
     (case env c s of (r, s') \<Rightarrow> (r, s'\<lparr>calls := calls s @ [(c, committing s)]\<rparr>))"

definition console_log :: "console_entry list \<Rightarrow> store \<Rightarrow> store" where
  "console_log es s = s\<lparr>console := console s @ es\<rparr>"

text \<open>The getter \<open>state\<close> of the store: \<open>this._state.data\<close>.\<close>

definition state :: "store \<Rightarrow> jsval + jsval" where
  "state s = (case state_data s of None \<Rightarrow> Inl TypeError | Some d \<Rightarrow> Inr d)"

subsection \<open>store.js: withCommit\<close>

text \<open>
  \<open>_withCommit(fn)\<close>. There is no \<open>finally\<close>: when \<open>fn\<close> throws, the flag is not
  restored. What \<open>fn\<close> returns stands for what it did outside the store.
\<close>

definition withCommit :: "(store \<Rightarrow> (jsval + 'a) \<times> store) \<Rightarrow> store \<Rightarrow> (jsval + 'a) \<times> store" where
  "withCommit f s =
     (let committing0 = committing s in
      case f (s\<lparr>committing := True\<rparr>) of
        (Inl e, s') \<Rightarrow> (Inl e, s')
      | (Inr x, s') \<Rightarrow> (Inr x, s'\<lparr>committing := committing0\<rparr>))"

subsection \<open>store-util.js\<close>

text \<open>
  Modelled from the spec: util.js is not among the sources. \<open>isObject\<close> tells the
  single object carrying \<open>type\<close> from a name, and \<open>assert\<close> raises a descriptive
  assertion, an \<open>Error\<close> with the message.
\<close>

fun isObject :: "jsval \<Rightarrow> bool" where
  "isObject (Object ps) = True"
| "isObject v = False"

fun typeof :: "jsval \<Rightarrow> string" where
  "typeof Undefined = ''undefined''"
| "typeof Null = ''object''"
| "typeof (Boolean b) = ''boolean''"
| "typeof (Number r) = ''number''"
| "typeof (String s) = ''string''"
| "typeof (Object ps) = ''object''"

text \<open>\<open>v.key\<close> where \<open>v\<close> is known to be neither \<open>undefined\<close> nor \<open>null\<close>, and
  \<open>options && options.key\<close> as a condition.\<close>

definition member :: "jsval \<Rightarrow> string \<Rightarrow> jsval" where
  "member v key = (case get_prop v key of Inl e \<Rightarrow> Undefined | Inr x \<Rightarrow> x)"

definition option_set :: "jsval \<Rightarrow> string \<Rightarrow> bool" where
  "option_set options key = (truthy options \<and> truthy (member options key))"

text \<open>\<open>unifyObjectStyle(type, payload, options)\<close> returns \<open>{ type, payload, options }\<close>.\<close>

definition unifyObjectStyle ::
  "bool \<Rightarrow> jsval \<Rightarrow> jsval \<Rightarrow> jsval \<Rightarrow> jsval + jsval \<times> jsval \<times> jsval" where
  "unifyObjectStyle dev type payload options =
     (case (if isObject type \<and> truthy (member type ''type'')
            then (member type ''type'', type, payload)
            else (type, payload, options))
      of (type', payload', options') \<Rightarrow>
        if dev \<and> typeof type' \<noteq> ''string''
        then Inl (Error (''[vuex] expects string as the type, but found '' @ typeof type' @ ''.''))
        else Inr (type', payload', options'))"

text \<open>\<open>genericSubscribe(fn, subs, options)\<close>: the subscriber list afterwards.
  \<open>indexOf\<close> looks for the very function or object, which \<open>identity\<close> tells. The
  function it returns removes the subscriber: \<open>unsubscribe\<close>.\<close>

definition genericSubscribe :: "('a \<Rightarrow> 'b) \<Rightarrow> 'a \<Rightarrow> 'a list \<Rightarrow> jsval \<Rightarrow> 'a list" where
  "genericSubscribe identity f subs options =
     (if identity f \<notin> set (map identity subs)
      then (if option_set options ''prepend'' then f # subs else subs @ [f])
      else subs)"

fun unsubscribe :: "('a \<Rightarrow> 'b) \<Rightarrow> 'a \<Rightarrow> 'a list \<Rightarrow> 'a list" where
  "unsubscribe identity f [] = []"
| "unsubscribe identity f (x # subs) =
     (if identity x = identity f then subs else x # unsubscribe identity f subs)"

text \<open>\<open>registerMutation\<close> and \<open>registerAction\<close> push the wrapped handler onto the
  entry of the type, which they create when it is missing.\<close>

definition push_entry :: "string \<Rightarrow> 'a \<Rightarrow> (string \<times> 'a list) list \<Rightarrow> (string \<times> 'a list) list" where
  "push_entry type h registry =
     AList.update type ((case map_of registry type of None \<Rightarrow> [] | Some entry \<Rightarrow> entry) @ [h])
       registry"

definition registerMutation :: "store \<Rightarrow> string \<Rightarrow> fn \<Rightarrow> local \<Rightarrow> store" where
  "registerMutation s type handler l = s\<lparr>mutations := push_entry type (handler, l) (mutations s)\<rparr>"

definition registerAction :: "store \<Rightarrow> string \<Rightarrow> fn \<Rightarrow> local \<Rightarrow> store" where
  "registerAction s type handler l = s\<lparr>actions := push_entry type (handler, l) (actions s)\<rparr>"

definition registerGetter :: "store \<Rightarrow> string \<Rightarrow> fn \<Rightarrow> local \<Rightarrow> store" where
  "registerGetter s type rawGetter l =
     (if map_of (wrappedGetters s) type \<noteq> None
      then (if DEV s then console_log [ConsoleError (''[vuex] duplicate getter key: '' @ type)] s
            else s)
      else s\<lparr>wrappedGetters := AList.update type (rawGetter, l) (wrappedGetters s)\<rparr>)"

text \<open>\<open>makeLocalContext(store, namespace, path)\<close>\<close>

definition makeLocalContext :: "string \<Rightarrow> string list \<Rightarrow> local" where
  "makeLocalContext namespace path = \<lparr>local_namespace = namespace, local_path = path\<rparr>"

text \<open>The getter \<open>local.state\<close>: \<open>getNestedState(store.state, path)\<close>.\<close>

definition local_state :: "local \<Rightarrow> store \<Rightarrow> jsval + jsval" where
  "local_state l s =
     (case state s of Inl e \<Rightarrow> Inl e | Inr d \<Rightarrow> getNestedState d (local_path l))"

text \<open>\<open>makeLocalGetters(store, namespace)\<close> fills the cache for the namespace with
  the getter keys that start with it, the prefix stripped.\<close>

definition makeLocalGetters :: "store \<Rightarrow> string \<Rightarrow> store" where
  "makeLocalGetters s namespace =
     (if map_of (makeLocalGettersCache s) namespace = None
      then s\<lparr>makeLocalGettersCache :=
               AList.update namespace
                 (map (drop (length namespace))
                    (filter (\<lambda>type. take (length namespace) type = namespace) (getters s)))
                 (makeLocalGettersCache s)\<rparr>
      else s)"

text \<open>The getter \<open>local.getters\<close>: the store's own getters without a namespace.\<close>

definition local_getters :: "local \<Rightarrow> store \<Rightarrow> store" where
  "local_getters l s = (if local_namespace l = '''' then s else makeLocalGetters s (local_namespace l))"

text \<open>
  The state is one tree of objects, and \<open>getNestedState(state, path)\<close> returns the
  object inside it that a following assignment or \<open>delete\<close> changes in place.
  \<open>modify_nested state path f\<close> is the state after \<open>f\<close> has changed that object;
  it throws where \<open>getNestedState\<close> or \<open>f\<close> does.
\<close>

fun put_back :: "jsval \<Rightarrow> string \<Rightarrow> jsval \<Rightarrow> jsval" where
  "put_back (Object ps) key v = (if map_of ps key = None then Object ps else Object (AList.update key v ps))"
| "put_back st key v = st"

fun modify_nested :: "jsval \<Rightarrow> string list \<Rightarrow> (jsval \<Rightarrow> jsval + jsval) \<Rightarrow> jsval + jsval" where
  "modify_nested st [] f = f st"
| "modify_nested st (key # path) f =
     (case get_prop st key of
        Inl e \<Rightarrow> Inl e
      | Inr v \<Rightarrow>
          (case modify_nested v path f of
             Inl e \<Rightarrow> Inl e
           | Inr v' \<Rightarrow> Inr (put_back st key v')))"

text \<open>
  The block of \<open>installModule\<close> that sets the state of a module that is neither the
  root nor hot: \<open>parentState[moduleName] = module.state\<close> inside \<open>_withCommit\<close>, with
  the warning of a development build when the key is already there. It returns the
  root state afterwards.
\<close>

definition installModule_state ::
  "store \<Rightarrow> jsval \<Rightarrow> string list \<Rightarrow> module \<Rightarrow> (jsval + jsval) \<times> store" where
  "installModule_state s rootState path m =
     (case getNestedState rootState (butlast path) of
        Inl e \<Rightarrow> (Inl e, s)
      | Inr parentState \<Rightarrow>
          (let moduleName = last_key path in
           withCommit (\<lambda>t.
             case (if DEV t then has_prop moduleName parentState else Inr False) of
               Inl e \<Rightarrow> (Inl e, t)
             | Inr present \<Rightarrow>
                 (let t' = (if present
                            then console_log
                                   [ConsoleWarn (''[vuex] state field '' @ dquote @ moduleName @ dquote @
                                      '' was overridden by a module with the same name at '' @
                                      dquote @ join ''.'' path @ dquote)] t
                            else t)
                  in case modify_nested rootState (butlast path)
                            (\<lambda>parent. set_prop parent moduleName (mstate m)) of
                       Inl e \<Rightarrow> (Inl e, t')
                     | Inr rootState' \<Rightarrow> (Inr rootState', t'))) s))"

definition action_root :: "action_def \<Rightarrow> bool" where
  "action_root action = (case action of ActionFn f \<Rightarrow> False | ActionObj r h \<Rightarrow> r)"

definition action_handler :: "action_def \<Rightarrow> fn" where
  "action_handler action = (case action of ActionFn f \<Rightarrow> f | ActionObj r h \<Rightarrow> h)"

definition set_context :: "local \<Rightarrow> module \<Rightarrow> module" where
  "set_context l m = Module (raw m) (runtime m) (mstate m) (Some l) (children m)"

text \<open>
  The part of \<open>installModule\<close> between the state and the children: the local context,
  then the mutations, actions and getters in declared order.
  Modelled from the spec: \<open>forEachMutation\<close>, \<open>forEachAction\<close>, \<open>forEachGetter\<close>
  and \<open>forEachChild\<close> of module.js enumerate in the declared order.
\<close>

definition installModule_register :: "store \<Rightarrow> string \<Rightarrow> string list \<Rightarrow> module \<Rightarrow> store" where
  "installModule_register s namespace path m =
     (let l = makeLocalContext namespace path;
          s1 = s\<lparr>modules := modify_at path (set_context l) (modules s)\<rparr>;
          s2 = foldl (\<lambda>t (key, mutation). registerMutation t (namespace @ key) mutation l)
                 s1 (rmutations (raw m));
          s3 = foldl (\<lambda>t (key, action).
                        registerAction t (if action_root action then key else namespace @ key)
                          (action_handler action) l)
                 s2 (ractions (raw m))
      in foldl (\<lambda>t (key, getter). registerGetter t (namespace @ key) getter l)
           s3 (rgetters (raw m)))"

text \<open>The part of \<open>installModule\<close> that records a namespaced module in the namespace
  map.\<close>

definition installModule_namespace :: "store \<Rightarrow> string \<Rightarrow> string list \<Rightarrow> module \<Rightarrow> store" where
  "installModule_namespace s namespace path m =
     (if namespaced m
      then (if map_of (modulesNamespaceMap s) namespace \<noteq> None \<and> DEV s
            then console_log
                   [ConsoleError (''[vuex] duplicate namespace '' @ namespace @
                      '' for the namespaced module '' @ join ''/'' path)] s
            else s)
           \<lparr>modulesNamespaceMap := AList.update namespace path (modulesNamespaceMap s)\<rparr>
      else s)"

lemma size_children:
  "Suc (2 * size_list (size_prod (\<lambda>_. 0) size) (children m)) < 2 * size m"
  by (cases m) simp

text \<open>
  \<open>installModule(store, rootState, path, module, hot)\<close>. \<open>rootState\<close> is an object
  that the function changes in place: the result carries it as it is afterwards,
  also when the function throws.
\<close>

function installModule ::
    "store \<Rightarrow> jsval \<Rightarrow> string list \<Rightarrow> module \<Rightarrow> bool \<Rightarrow> (jsval + unit) \<times> store \<times> jsval"
  and installModule_children ::
    "store \<Rightarrow> jsval \<Rightarrow> string list \<Rightarrow> (string \<times> module) list \<Rightarrow> bool \<Rightarrow> (jsval + unit) \<times> store \<times> jsval"
where
  "installModule s rootState path m hot =
     (case getNamespace (modules s) path of
        Inl e \<Rightarrow> (Inl e, s, rootState)
      | Inr namespace \<Rightarrow>
          (case (if path \<noteq> [] \<and> \<not> hot
                 then installModule_state (installModule_namespace s namespace path m) rootState path m
                 else (Inr rootState, installModule_namespace s namespace path m)) of
             (Inl e, s') \<Rightarrow> (Inl e, s', rootState)
           | (Inr rootState', s') \<Rightarrow>
               installModule_children (installModule_register s' namespace path m)
                 rootState' path (children m) hot))"
| "installModule_children s rootState path [] hot = (Inr (), s, rootState)"
| "installModule_children s rootState path ((key, child) # rest) hot =
     (case installModule s rootState (path @ [key]) child hot of
        (Inl e, s', rootState') \<Rightarrow> (Inl e, s', rootState')
      | (Inr u, s', rootState') \<Rightarrow> installModule_children s' rootState' path rest hot)"
  by pat_completeness auto
termination
  by (relation "measure (\<lambda>x. case x of
          Inl (s, rootState, path, m, hot) \<Rightarrow> 2 * size m
        | Inr (s, rootState, path, ms, hot) \<Rightarrow> 2 * size_list (size_prod (\<lambda>_. 0) size) ms + 1)")
     (auto simp: size_children)

text \<open>
  \<open>resetStoreState(store, state, hot, reserve)\<close>: the getters are defined anew from
  \<open>_wrappedGetters\<close>, the cache of local getters is emptied and \<open>_state\<close> becomes a
  new container of \<open>state\<close>. With \<open>hot\<close>, the old container is emptied inside
  \<open>_withCommit\<close>, which leaves the new one as it is. \<open>reserve\<close> concerns the effect
  scope only.
\<close>

definition resetStoreState :: "store \<Rightarrow> jsval \<Rightarrow> bool \<Rightarrow> bool \<Rightarrow> store" where
  "resetStoreState s st hot reserve =
     (let oldState = state_data s;
          s1 = s\<lparr>getters := map fst (wrappedGetters s), makeLocalGettersCache := []\<rparr>;
          s2 = s1\<lparr>state_data := Some st\<rparr>
      in if oldState \<noteq> None \<and> hot
         then snd (withCommit (\<lambda>t. (Inr (), t)) s2)
         else s2)"

text \<open>\<open>resetStore(store, hot)\<close>. The root state it installs into is the object
  \<open>store.state\<close>.\<close>

definition resetStore :: "store \<Rightarrow> bool \<Rightarrow> (jsval + unit) \<times> store" where
  "resetStore s hot =
     (let s1 = s\<lparr>actions := [], mutations := [], wrappedGetters := [], modulesNamespaceMap := []\<rparr>
      in case state s1 of
           Inl e \<Rightarrow> (Inl e, s1)
         | Inr st \<Rightarrow>
             (case installModule s1 st [] (modules s1) True of
                (Inl e, s2, st') \<Rightarrow> (Inl e, s2\<lparr>state_data := Some st'\<rparr>)
              | (Inr u, s2, st') \<Rightarrow> (Inr (), resetStoreState s2 st' hot False)))"

subsection \<open>store.js\<close>

text \<open>
  The wrapped mutation handler that \<open>registerMutation\<close> pushes, called with the
  payload: \<open>handler.call(store, local.state, payload)\<close>.
\<close>

definition wrappedMutationHandler :: "env \<Rightarrow> fn \<times> local \<Rightarrow> jsval \<Rightarrow> store \<Rightarrow> (jsval + unit) \<times> store" where
  "wrappedMutationHandler env h payload s =
     (case local_state (snd h) s of
        Inl e \<Rightarrow> (Inl e, s)
      | Inr localState \<Rightarrow>
          (case invoke env (MutationHandler (fst h) (snd h) localState payload) s of
             (Inl e, s') \<Rightarrow> (Inl e, s')
           | (Inr r, s') \<Rightarrow> (Inr (), s')))"

text \<open>\<open>entry.forEach(handler => handler(payload))\<close>, over the handlers that the
  entry held when the loop began.\<close>

fun commitIterator :: "env \<Rightarrow> (fn \<times> local) list \<Rightarrow> jsval \<Rightarrow> store \<Rightarrow> (jsval + unit) \<times> store" where
  "commitIterator env [] payload s = (Inr (), s)"
| "commitIterator env (handler # entry) payload s =
     (case wrappedMutationHandler env handler payload s of
        (Inl e, s') \<Rightarrow> (Inl e, s')
      | (Inr u, s') \<Rightarrow> commitIterator env entry payload s')"

text \<open>\<open>subs.forEach(sub => sub(mutation, this.state))\<close>, over a copy of the
  subscribers.\<close>

fun notify_subscribers :: "env \<Rightarrow> fn list \<Rightarrow> jsval \<Rightarrow> store \<Rightarrow> (jsval + unit) \<times> store" where
  "notify_subscribers env [] mutation s = (Inr (), s)"
| "notify_subscribers env (sub # subs) mutation s =
     (case state s of
        Inl e \<Rightarrow> (Inl e, s)
      | Inr st \<Rightarrow>
          (case invoke env (Subscriber sub mutation st) s of
             (Inl e, s') \<Rightarrow> (Inl e, s')
           | (Inr r, s') \<Rightarrow> notify_subscribers env subs mutation s'))"

text \<open>\<open>commit(_type, _payload, _options)\<close>\<close>

definition commit :: "env \<Rightarrow> jsval \<Rightarrow> jsval \<Rightarrow> jsval \<Rightarrow> store \<Rightarrow> (jsval + result) \<times> store" where
  "commit env type0 payload0 options0 s =
     (case unifyObjectStyle (DEV s) type0 payload0 options0 of
        Inl e \<Rightarrow> (Inl e, s)
      | Inr (type, payload, options) \<Rightarrow>
          (let mutation = Object [(''type'', type), (''payload'', payload)] in
           case map_of (mutations s) (toString type) of
             None \<Rightarrow>
               (Inr (Plain Undefined),
                if DEV s
                then console_log [ConsoleError (''[vuex] unknown mutation type: '' @ toString type)] s
                else s)
           | Some entry \<Rightarrow>
               (case withCommit (commitIterator env entry payload) s of
                  (Inl e, s1) \<Rightarrow> (Inl e, s1)
                | (Inr u, s1) \<Rightarrow>
                    (case notify_subscribers env (subscribers s1) mutation s1 of
                       (Inl e, s2) \<Rightarrow> (Inl e, s2)
                     | (Inr u', s2) \<Rightarrow>
                         (Inr (Plain Undefined),
                          if DEV s2 \<and> option_set options ''silent''
                          then console_log
                                 [ConsoleWarn (''[vuex] mutation type: '' @ toString type @
                                    ''. Silent option has been removed. '' @
                                    ''Use the filter functionality in the vue-devtools'')] s2
                          else s2)))))"

text \<open>
  The wrapped action handler that \<open>registerAction\<close> pushes. The context object reads
  \<open>local.getters\<close> and \<open>local.state\<close>; what the handler returns is made a promise
  unless it is one.
  Modelled from the spec: \<open>isPromise\<close> of util.js tells an awaitable from a value.
\<close>

definition wrappedActionHandler :: "env \<Rightarrow> fn \<times> local \<Rightarrow> jsval \<Rightarrow> store \<Rightarrow> (jsval + promise) \<times> store" where
  "wrappedActionHandler env h payload s =
     (let s1 = local_getters (snd h) s in
      case local_state (snd h) s1 of
        Inl e \<Rightarrow> (Inl e, s1)
      | Inr localState \<Rightarrow>
          (case state s1 of
             Inl e \<Rightarrow> (Inl e, s1)
           | Inr rootState \<Rightarrow>
               (case invoke env (ActionHandler (fst h) (snd h) localState rootState payload) s1 of
                  (Inl e, s2) \<Rightarrow> (Inl e, s2)
                | (Inr r, s2) \<Rightarrow>
                    (let res = (case r of Awaitable p \<Rightarrow> p | Plain v \<Rightarrow> PromiseResolve v)
                     in (Inr (if devtoolHook s2 then PromiseCatch res else res), s2)))))"

text \<open>\<open>entry.map(handler => handler(payload))\<close>\<close>

fun map_handlers :: "env \<Rightarrow> (fn \<times> local) list \<Rightarrow> jsval \<Rightarrow> store \<Rightarrow> (jsval + promise list) \<times> store" where
  "map_handlers env [] payload s = (Inr [], s)"
| "map_handlers env (handler # entry) payload s =
     (case wrappedActionHandler env handler payload s of
        (Inl e, s') \<Rightarrow> (Inl e, s')
      | (Inr p, s') \<Rightarrow>
          (case map_handlers env entry payload s' of
             (Inl e, s'') \<Rightarrow> (Inl e, s'')
           | (Inr ps, s'') \<Rightarrow> (Inr (p # ps), s'')))"

text \<open>
  One phase of action subscribers: \<open>forEach\<close> over the functions that \<open>filter\<close>
  kept, each called with the action, \<open>this.state\<close> and, in the error phase, the
  error.
\<close>

fun forEach_actionSubscribers ::
  "env \<Rightarrow> fn list \<Rightarrow> jsval \<Rightarrow> jsval option \<Rightarrow> store \<Rightarrow> (jsval + unit) \<times> store" where
  "forEach_actionSubscribers env [] action err s = (Inr (), s)"
| "forEach_actionSubscribers env (f # fs) action err s =
     (case state s of
        Inl e \<Rightarrow> (Inl e, s)
      | Inr st \<Rightarrow>
          (case invoke env (ActionSubscriber f action st err) s of
             (Inl e, s') \<Rightarrow> (Inl e, s')
           | (Inr r, s') \<Rightarrow> forEach_actionSubscribers env fs action err s'))"

text \<open>The \<open>try { ... } catch (e) { ... }\<close> around a phase: one handler for the whole
  loop, which writes to the console in a development build.\<close>

definition try_subscribers ::
  "string \<Rightarrow> env \<Rightarrow> fn list \<Rightarrow> jsval \<Rightarrow> jsval option \<Rightarrow> store \<Rightarrow> store" where
  "try_subscribers phase env fs action err s =
     (case forEach_actionSubscribers env fs action err s of
        (Inl e, s') \<Rightarrow>
          if DEV s'
          then console_log
                 [ConsoleWarn (''[vuex] error in '' @ phase @ '' action subscribers: ''),
                  ConsoleErrorValue e] s'
          else s'
      | (Inr u, s') \<Rightarrow> s')"

text \<open>\<open>dispatch(_type, _payload)\<close>, up to the promise it returns.\<close>

definition dispatch :: "env \<Rightarrow> jsval \<Rightarrow> jsval \<Rightarrow> store \<Rightarrow> (jsval + result) \<times> store" where
  "dispatch env type0 payload0 s =
     (case unifyObjectStyle (DEV s) type0 payload0 Undefined of
        Inl e \<Rightarrow> (Inl e, s)
      | Inr (type, payload, options) \<Rightarrow>
          (let action = Object [(''type'', type), (''payload'', payload)] in
           case map_of (actions s) (toString type) of
             None \<Rightarrow>
               (Inr (Plain Undefined),
                if DEV s
                then console_log [ConsoleError (''[vuex] unknown action type: '' @ toString type)] s
                else s)
           | Some entry \<Rightarrow>
               (let s1 = try_subscribers ''before'' env
                           (List.map_filter sub_before (actionSubscribers s)) action None s
                in case (if length entry > 1
                         then (case map_handlers env entry payload s1 of
                                 (Inl e, s2) \<Rightarrow> (Inl e, s2)
                               | (Inr ps, s2) \<Rightarrow> (Inr (PromiseAll ps), s2))
                         else (case entry of
                                 [] \<Rightarrow> (Inl TypeError, s1)
                               | handler # rest \<Rightarrow> wrappedActionHandler env handler payload s1)) of
                     (Inl e, s2) \<Rightarrow> (Inl e, s2)
                   | (Inr result, s2) \<Rightarrow> (Inr (Awaitable (NewPromise result)), s2))))"

text \<open>
  The two callbacks that \<open>dispatch\<close> passes to \<open>result.then\<close>. They run when
  \<open>result\<close> has settled, on the store as it is then, and end with \<open>resolve(res)\<close>
  and \<open>reject(error)\<close>: the promise that \<open>dispatch\<close> returned settles as
  \<open>result\<close> did.
\<close>

definition dispatch_fulfilled :: "env \<Rightarrow> jsval \<Rightarrow> store \<Rightarrow> store" where
  "dispatch_fulfilled env action s =
     try_subscribers ''after'' env (List.map_filter sub_after (actionSubscribers s)) action None s"

definition dispatch_rejected :: "env \<Rightarrow> jsval \<Rightarrow> jsval \<Rightarrow> store \<Rightarrow> store" where
  "dispatch_rejected env action error s =
     try_subscribers ''error'' env (List.map_filter sub_error (actionSubscribers s)) action
       (Some error) s"

text \<open>\<open>subscribe(fn, options)\<close>: a function is told by its name.\<close>

definition subscribe :: "fn \<Rightarrow> jsval \<Rightarrow> store \<Rightarrow> store" where
  "subscribe f options s =
     s\<lparr>subscribers := genericSubscribe (\<lambda>g. g) f (subscribers s) options\<rparr>"

text \<open>
  \<open>subscribeAction(fn, options)\<close>. The argument is a function, which becomes the
  \<open>before\<close> of an object made there and then, or an object of the caller, given
  with the number that tells it from the caller's other objects and with its three
  members as they are at the call.
\<close>

datatype subscribeAction_arg =
    SubscriberFn fn
  | SubscriberObject nat "fn option" "fn option" "fn option"

definition subscribeAction :: "subscribeAction_arg \<Rightarrow> jsval \<Rightarrow> store \<Rightarrow> store" where
  "subscribeAction f options s =
     (case f of
        SubscriberFn g \<Rightarrow>
          (let subs = \<lparr>sub_object = Made (made s), sub_before = Some g, sub_after = None,
                        sub_error = None\<rparr>
           in s\<lparr>actionSubscribers := genericSubscribe sub_object subs (actionSubscribers s) options,
                made := Suc (made s)\<rparr>)
      | SubscriberObject n before after error \<Rightarrow>
          (let subs = \<lparr>sub_object = Given n, sub_before = before, sub_after = after,
                        sub_error = error\<rparr>
           in s\<lparr>actionSubscribers := genericSubscribe sub_object subs (actionSubscribers s) options\<rparr>))"


text \<open>A path argument is a string, which stands for the path of that one key, or an
  array of keys.\<close>

datatype path_arg =
    PathString string
  | PathArray "string list"

definition to_path :: "path_arg \<Rightarrow> string list" where
  "to_path p = (case p of PathString key \<Rightarrow> [key] | PathArray path \<Rightarrow> path)"

text \<open>\<open>registerModule(path, rawModule, options)\<close>, with \<open>options.preserveState\<close>.
  The root state that \<open>installModule\<close> changes is the object \<open>this.state\<close>.\<close>

definition registerModule :: "path_arg \<Rightarrow> rawModule \<Rightarrow> bool \<Rightarrow> store \<Rightarrow> (jsval + unit) \<times> store" where
  "registerModule path0 rawModule preserveState s =
     (let path = to_path path0 in
      if DEV s \<and> path = []
      then (Inl (Error ''[vuex] cannot register the root module by using registerModule.''), s)
      else
        (case register (Some (modules s)) path rawModule True of
           Inl e \<Rightarrow> (Inl e, s)
         | Inr root \<Rightarrow>
             (let s1 = s\<lparr>modules := root\<rparr> in
              case state s1 of
                Inl e \<Rightarrow> (Inl e, s1)
              | Inr st \<Rightarrow>
                  (case get root path of
                     Inl e \<Rightarrow> (Inl e, s1)
                   | Inr None \<Rightarrow> (Inl TypeError, s1)
                   | Inr (Some m) \<Rightarrow>
                       (case installModule s1 st path m preserveState of
                          (Inl e, s2, st') \<Rightarrow> (Inl e, s2\<lparr>state_data := Some st'\<rparr>)
                        | (Inr u, s2, st') \<Rightarrow> (Inr (), resetStoreState s2 st' False True))))))"

text \<open>\<open>unregisterModule(path)\<close>\<close>

definition unregisterModule :: "path_arg \<Rightarrow> store \<Rightarrow> (jsval + unit) \<times> store" where
  "unregisterModule path0 s =
     (let path = to_path path0 in
      case unregister (DEV s) (modules s) path of
        Inl e \<Rightarrow> (Inl e, s)
      | Inr (root, warnings) \<Rightarrow>
          (case withCommit (\<lambda>t.
                  case state t of
                    Inl e \<Rightarrow> (Inl e, t)
                  | Inr st \<Rightarrow>
                      (case modify_nested st (butlast path)
                              (\<lambda>parentState. delete_prop parentState (last_key path)) of
                         Inl e \<Rightarrow> (Inl e, t)
                       | Inr st' \<Rightarrow> (Inr (), t\<lparr>state_data := Some st'\<rparr>)))
                  (console_log warnings (s\<lparr>modules := root\<rparr>)) of
             (Inl e, s1) \<Rightarrow> (Inl e, s1)
           | (Inr u, s1) \<Rightarrow> resetStore s1 False))"

text \<open>\<open>hasModule(path)\<close>\<close>

definition hasModule :: "path_arg \<Rightarrow> store \<Rightarrow> jsval + bool" where
  "hasModule path0 s = isRegistered (modules s) (to_path path0)"

text \<open>\<open>hotUpdate(newOptions)\<close>\<close>

definition hotUpdate :: "rawModule \<Rightarrow> store \<Rightarrow> (jsval + unit) \<times> store" where
  "hotUpdate newOptions s =
     (case update (DEV s) [] (modules s) newOptions of
        (root, warnings) \<Rightarrow> resetStore (console_log warnings (s\<lparr>modules := root\<rparr>)) True)"

text \<open>\<open>plugins.forEach(plugin => plugin(this))\<close>\<close>

fun apply_plugins :: "env \<Rightarrow> fn list \<Rightarrow> store \<Rightarrow> (jsval + unit) \<times> store" where
  "apply_plugins env [] s = (Inr (), s)"
| "apply_plugins env (plugin # plugins) s =
     (case invoke env (Plugin plugin) s of
        (Inl e, s') \<Rightarrow> (Inl e, s')
      | (Inr r, s') \<Rightarrow> apply_plugins env plugins s')"

text \<open>
  \<open>createStore(options)\<close>, that is \<open>new Store(options)\<close>: the options are the root
  raw module with \<open>plugins\<close> and \<open>strict\<close>; \<open>dev\<close> is the build constant. A
  constructor that throws leaves no store. \<open>new_Store\<close> is the store as the
  first lines of the constructor set its fields, once the module collection is there.
\<close>

definition new_Store :: "bool \<Rightarrow> module \<Rightarrow> bool \<Rightarrow> store" where
  "new_Store dev root strict0 =
     \<lparr>DEV = dev, console = [], calls = [], committing = False, actions = [],
      actionSubscribers = [], mutations = [], wrappedGetters = [],
      modules = root, modulesNamespaceMap = [], subscribers = [],
      makeLocalGettersCache = [], getters = [], state_data = None,
      strict = strict0, devtoolHook = False, made = 0\<rparr>"

definition createStore :: "env \<Rightarrow> bool \<Rightarrow> rawModule \<Rightarrow> fn list \<Rightarrow> bool \<Rightarrow> jsval + store" where
  "createStore env dev options plugins strict0 =
     (case new_ModuleCollection options of
        Inl e \<Rightarrow> Inl e
      | Inr root \<Rightarrow>
          (let this = new_Store dev root strict0
           in case installModule this (mstate root) [] root False of
                (Inl e, s1, st) \<Rightarrow> Inl e
              | (Inr u, s1, st) \<Rightarrow>
                  (case apply_plugins env plugins (resetStoreState s1 st False True) of
                     (Inl e, s2) \<Rightarrow> Inl e
                   | (Inr u', s2) \<Rightarrow> Inr s2)))"

subsection \<open>store-util.js: the local context\<close>

text \<open>
  \<open>local.dispatch\<close> and \<open>local.commit\<close> of the context that
  \<open>makeLocalContext(store, namespace, path)\<close> returns. Without a namespace they are
  \<open>store.dispatch\<close> and \<open>store.commit\<close>, the bound functions of the constructor,
  which pass on two and three arguments.
\<close>

definition local_dispatch :: "env \<Rightarrow> local \<Rightarrow> jsval \<Rightarrow> jsval \<Rightarrow> jsval \<Rightarrow> store \<Rightarrow> (jsval + result) \<times> store" where
  "local_dispatch env l type0 payload0 options0 s =
     (let namespace = local_namespace l in
      if namespace = '''' then dispatch env type0 payload0 s
      else
        (case unifyObjectStyle (DEV s) type0 payload0 options0 of
           Inl e \<Rightarrow> (Inl e, s)
         | Inr (type, payload, options) \<Rightarrow>
             if \<not> option_set options ''root''
             then (if DEV s \<and> map_of (actions s) (namespace @ toString type) = None
                   then (Inr (Plain Undefined),
                         console_log
                           [ConsoleError (''[vuex] unknown local action type: '' @ toString type @
                              '', global type: '' @ namespace @ toString type)] s)
                   else dispatch env (String (namespace @ toString type)) payload s)
             else dispatch env type payload s))"

definition local_commit :: "env \<Rightarrow> local \<Rightarrow> jsval \<Rightarrow> jsval \<Rightarrow> jsval \<Rightarrow> store \<Rightarrow> (jsval + result) \<times> store" where
  "local_commit env l type0 payload0 options0 s =
     (let namespace = local_namespace l in
      if namespace = '''' then commit env type0 payload0 options0 s
      else
        (case unifyObjectStyle (DEV s) type0 payload0 options0 of
           Inl e \<Rightarrow> (Inl e, s)
         | Inr (type, payload, options) \<Rightarrow>
             if \<not> option_set options ''root''
             then (if DEV s \<and> map_of (mutations s) (namespace @ toString type) = None
                   then (Inr (Plain Undefined),
                         console_log
                           [ConsoleError (''[vuex] unknown local mutation type: '' @ toString type @
                              '', global type: '' @ namespace @ toString type)] s)
                   else (case commit env (String (namespace @ toString type)) payload options s of
                           (Inl e, s') \<Rightarrow> (Inl e, s')
                         | (Inr r, s') \<Rightarrow> (Inr (Plain Undefined), s')))
             else (case commit env type payload options s of
                     (Inl e, s') \<Rightarrow> (Inl e, s')
                   | (Inr r, s') \<Rightarrow> (Inr (Plain Undefined), s'))))"

section \<open>Reading the record of calls\<close>

text \<open>The name of the function that a call runs; the wrapped handler (the handler
  with its local context) of a call to a mutation or action handler; the subscriber
  and the mutation of a notification.\<close>

fun callee :: "call \<Rightarrow> fn" where
  "callee (MutationHandler f l st payload) = f"
| "callee (ActionHandler f l st rootState payload) = f"
| "callee (Subscriber f mutation st) = f"
| "callee (ActionSubscriber f action st err) = f"
| "callee (Plugin f) = f"

fun wrapped_of :: "call \<Rightarrow> ((fn \<times> local) \<times> jsval) option" where
  "wrapped_of (MutationHandler f l st payload) = Some ((f, l), payload)"
| "wrapped_of (ActionHandler f l st rootState payload) = Some ((f, l), payload)"
| "wrapped_of c = None"

fun notified :: "call \<Rightarrow> (fn \<times> jsval) option" where
  "notified (Subscriber f mutation st) = Some (f, mutation)"
| "notified c = None"

text \<open>The first argument of \<open>commit\<close> and \<open>dispatch\<close> names the type in one of
  two ways: it is the name itself, or an object that carries the name as its
  \<open>type\<close>.\<close>

fun names_type :: "jsval \<Rightarrow> string \<Rightarrow> bool" where
  "names_type (String s) type = (s = type)"
| "names_type (Object ps) type = (map_of ps ''type'' = Some (String type) \<and> type \<noteq> [])"
| "names_type v type = False"

text \<open>
  What a module tree holds apart from the definitions and the local contexts: for
  each module its \<open>runtime\<close> flag and its materialized state, and its children by
  key.
\<close>

definition no_definition :: rawModule where
  "no_definition = RawModule Undefined False [] [] [] []"

function skeleton :: "module \<Rightarrow> module"
  and skeleton_children :: "(string \<times> module) list \<Rightarrow> (string \<times> module) list"
where
  "skeleton m = Module no_definition (runtime m) (mstate m) None (skeleton_children (children m))"
| "skeleton_children [] = []"
| "skeleton_children ((key, child) # rest) = (key, skeleton child) # skeleton_children rest"
  by pat_completeness auto
termination
  by (relation "measure (\<lambda>x. case x of
          Inl m \<Rightarrow> 2 * size m
        | Inr ms \<Rightarrow> 2 * size_list (size_prod (\<lambda>_. 0) size) ms + 1)")
     (auto simp: size_children)

text \<open>The local context of the module that a path reaches: \<open>module.context\<close>,
  \<open>None\<close> where there is no such module or \<open>installModule\<close> has not yet come to
  it.\<close>

definition context_at :: "module \<Rightarrow> string list \<Rightarrow> local option" where
  "context_at root path = (case get root path of Inr (Some m) \<Rightarrow> mcontext m | _ \<Rightarrow> None)"

text \<open>A registry holds a wrapped handler under a type.\<close>

definition has_handler :: "(string \<times> (fn \<times> local) list) list \<Rightarrow> string \<Rightarrow> fn \<times> local \<Rightarrow> bool" where
  "has_handler registry type h =
     (case map_of registry type of None \<Rightarrow> False | Some entry \<Rightarrow> h \<in> set entry)"

text \<open>
  Calls made one after the other, in the words of the claims about \<open>commit\<close>: each
  call of the list is made once, in the order of the list, on the store as the call
  before it left it, and is recorded with the flag \<open>_committing\<close> of that moment. A
  call is given by how its arguments are read from the store at that moment. The
  first call that throws, or whose arguments cannot be read, ends the run: the calls
  after it are not made.
\<close>

fun each_in_order :: "env \<Rightarrow> (store \<Rightarrow> jsval + call) list \<Rightarrow> store \<Rightarrow> (jsval + unit) \<times> store" where
  "each_in_order env [] s = (Inr (), s)"
| "each_in_order env (c # cs) s =
     (case c s of
        Inl e \<Rightarrow> (Inl e, s)
      | Inr x \<Rightarrow>
          (case env x s of
             (Inl e, t) \<Rightarrow> (Inl e, t\<lparr>calls := calls s @ [(x, committing s)]\<rparr>)
           | (Inr r, t) \<Rightarrow> each_in_order env cs (t\<lparr>calls := calls s @ [(x, committing s)]\<rparr>)))"

text \<open>The call of a mutation handler with its local state (the root state followed
  along the path of its module) and the payload, and the call of a mutation
  subscriber with the mutation and the root state.\<close>

definition handler_call :: "jsval \<Rightarrow> fn \<times> local \<Rightarrow> store \<Rightarrow> jsval + call" where
  "handler_call payload h s =
     (case state_data s of
        None \<Rightarrow> Inl TypeError
      | Some d \<Rightarrow>
          (case getNestedState d (local_path (snd h)) of
             Inl e \<Rightarrow> Inl e
           | Inr st \<Rightarrow> Inr (MutationHandler (fst h) (snd h) st payload)))"

definition subscriber_call :: "jsval \<Rightarrow> fn \<Rightarrow> store \<Rightarrow> jsval + call" where
  "subscriber_call mutation f s =
     (case state_data s of
        None \<Rightarrow> Inl TypeError
      | Some d \<Rightarrow> Inr (Subscriber f mutation d))"

section \<open>A store to run\<close>

text \<open>
  User functions for the examples. The mutation handler named \<open>f\<close> stores the
  payload under the key \<open>f\<close> of its local state, except \<open>fail\<close>, which throws. The
  action handler \<open>slow\<close> returns a promise fulfilled with the payload at instant 5,
  \<open>reject\<close> one rejected at instant 2, and any other returns the payload itself.
  The action subscriber \<open>bad\<close> throws; every other subscriber and the plugins
  return at once.
\<close>

definition example_env :: env where
  "example_env c s =
     (case c of
        MutationHandler f l st payload \<Rightarrow>
          (if f = ''fail'' then (Inl (String ''mutation failed''), s)
           else (Inr (Plain Undefined),
                 s\<lparr>state_data :=
                     (case state_data s of
                        None \<Rightarrow> None
                      | Some d \<Rightarrow>
                          (case modify_nested d (local_path l) (\<lambda>obj. set_prop obj f payload) of
                             Inl e \<Rightarrow> Some d
                           | Inr d' \<Rightarrow> Some d'))\<rparr>))
      | ActionHandler f l st rootState payload \<Rightarrow>
          (if f = ''reject'' then (Inr (Awaitable (Settles (Rejected 2 (String ''no'')))), s)
           else if f = ''slow'' then (Inr (Awaitable (Settles (Fulfilled 5 (Value payload)))), s)
           else (Inr (Plain payload), s))
      | Subscriber f mutation st \<Rightarrow> (Inr (Plain Undefined), s)
      | ActionSubscriber f action st err \<Rightarrow>
          (if f = ''bad'' then (Inl (String ''subscriber failed''), s)
           else (Inr (Plain Undefined), s))
      | Plugin f \<Rightarrow> (Inr (Plain Undefined), s))"

text \<open>
  The options of the example: a root with the mutation \<open>inc\<close> and the actions \<open>go\<close>
  and \<open>wait\<close>,
  a namespaced module \<open>a\<close> and, inside it, a module \<open>b\<close> that is not namespaced, so
  that the mutation \<open>inc\<close> and the action \<open>load\<close> of both are registered under
  \<open>a/inc\<close> and \<open>a/load\<close>.
\<close>

definition example_options :: rawModule where
  "example_options =
     RawModule (Object [(''n'', Number ''0'')]) False
       [(''inc'', ''incRoot'')] [(''go'', ActionFn ''go''), (''wait'', ActionFn ''slow'')] []
       [(''a'',
         RawModule (Object [(''n'', Number ''1'')]) True
           [(''inc'', ''incA'')] [(''load'', ActionFn ''slow'')] [(''g'', ''getA'')]
           [(''b'',
             RawModule (Object []) False
               [(''inc'', ''incB'')] [(''load'', ActionFn ''reject'')] [] [])])]"

text \<open>The store that \<open>createStore\<close> makes of options without plugins, in the build
  \<open>dev\<close>; should the constructor throw, the store is the one it began with.\<close>

definition store_of :: "bool \<Rightarrow> rawModule \<Rightarrow> store" where
  "store_of dev options =
     (case createStore example_env dev options [] False of
        Inr s \<Rightarrow> s
      | Inl e \<Rightarrow> new_Store dev (new_Module options False) False)"

definition example_store :: "bool \<Rightarrow> store" where
  "example_store dev = store_of dev example_options"

text \<open>Options whose root state already has a property \<open>a\<close> where the module \<open>a\<close>
  goes.\<close>

definition clash_options :: rawModule where
  "clash_options =
     RawModule (Object [(''a'', Number ''1'')]) False [] [] []
       [(''a'', RawModule (Object [(''n'', Number ''2'')]) False [] [] [] [])]"

text \<open>The example store with two action subscribers, \<open>bad\<close> before \<open>good\<close>, each
  given as a function and so called in the phase before the handlers.\<close>

definition subscribed_store :: "bool \<Rightarrow> store" where
  "subscribed_store dev =
     subscribeAction (SubscriberFn ''good'') Undefined
       (subscribeAction (SubscriberFn ''bad'') Undefined (example_store dev))"

text \<open>The module that a path reaches in a tree (the root where it reaches none), and
  the module tree of the example options as the module collection builds it, before
  any installation.\<close>

definition module_at :: "module \<Rightarrow> string list \<Rightarrow> module" where
  "module_at root path = (case get root path of Inr (Some m) \<Rightarrow> m | _ \<Rightarrow> root)"

definition example_modules :: module where
  "example_modules =
     (case new_ModuleCollection example_options of
        Inr root \<Rightarrow> root
      | Inl e \<Rightarrow> new_Module example_options False)"

text \<open>The example store with the mutation subscriber \<open>watch\<close>.\<close>

definition watched_store :: "bool \<Rightarrow> store" where
  "watched_store dev = subscribe ''watch'' Undefined (example_store dev)"

text \<open>Options whose mutation \<open>boom\<close> has two handlers: the root's, which throws, before
  that of the module \<open>c\<close>, which is not namespaced; the mutation \<open>set\<close> has one
  handler, which returns. The store made of them has the mutation subscriber
  \<open>watch\<close>.\<close>

definition failing_options :: rawModule where
  "failing_options =
     RawModule (Object []) False [(''boom'', ''fail''), (''set'', ''setRoot'')] [] []
       [(''c'', RawModule (Object []) False [(''boom'', ''incC'')] [] [] [])]"

definition failing_store :: "bool \<Rightarrow> store" where
  "failing_store dev = subscribe ''watch'' Undefined (store_of dev failing_options)"

section \<open>Basic facts\<close>

lemma invoke_calls: "calls (snd (invoke env c s)) = calls s @ [(c, committing s)]"
  by (simp add: invoke_def split: prod.splits)




lemma foldl_preserves:
  "(\<And>t x. F (f t x) = F t) \<Longrightarrow> F (foldl f s xs) = F s"
  by (induction xs arbitrary: s) auto

lemma installModule_namespace_fields [simp]:
  "committing (installModule_namespace s ns p m) = committing s"
  "state_data (installModule_namespace s ns p m) = state_data s"
  "calls (installModule_namespace s ns p m) = calls s"
  "DEV (installModule_namespace s ns p m) = DEV s"
  by (simp_all add: installModule_namespace_def console_log_def)

lemma registerGetter_fields [simp]:
  "committing (registerGetter s type g l) = committing s"
  "state_data (registerGetter s type g l) = state_data s"
  "calls (registerGetter s type g l) = calls s"
  "DEV (registerGetter s type g l) = DEV s"
  by (simp_all add: registerGetter_def console_log_def)

lemma installModule_register_fields [simp]:
  "committing (installModule_register s ns p m) = committing s"
  "state_data (installModule_register s ns p m) = state_data s"
  "calls (installModule_register s ns p m) = calls s"
  "DEV (installModule_register s ns p m) = DEV s"
  unfolding installModule_register_def Let_def
  by (subst foldl_preserves, simp add: split_def,
      subst foldl_preserves, simp add: split_def registerAction_def,
      subst foldl_preserves, simp add: split_def registerMutation_def, simp)+

lemma installModule_state_fields:
  "state_data (snd (installModule_state s rs p m)) = state_data s"
  "calls (snd (installModule_state s rs p m)) = calls s"
  "DEV (snd (installModule_state s rs p m)) = DEV s"
  by (auto simp: installModule_state_def withCommit_def Let_def console_log_def
           split: sum.splits prod.splits)


lemma installModule_hot:
  "hot \<Longrightarrow> snd (snd (installModule s rs p m hot)) = rs \<and>
      state_data (fst (snd (installModule s rs p m hot))) = state_data s"
  "hot \<Longrightarrow> snd (snd (installModule_children s rs p ms hot)) = rs \<and>
      state_data (fst (snd (installModule_children s rs p ms hot))) = state_data s"
proof (induction s rs p m hot and s rs p ms hot rule: installModule_installModule_children.induct)
  case (1 s rootState path m hot)
  show ?case
  proof (cases "getNamespace (modules s) path")
    case (Inl e)
    then show ?thesis by simp
  next
    case (Inr ns)
    with 1 show ?thesis by simp
  qed
next
  case (2 s rootState path hot)
  then show ?case by simp
next
  case (3 s rootState path key child rest hot)
  then show ?case
    by (cases "installModule s rootState (path @ [key]) child hot")
       (auto split: sum.splits)
qed



lemma resetStoreState_fields [simp]:
  "state_data (resetStoreState s st hot r) = Some st"
  "committing (resetStoreState s st hot r) = committing s"
  "calls (resetStoreState s st hot r) = calls s"
  by (simp_all add: resetStoreState_def withCommit_def Let_def)

lemma resetStore_state_data:
  "state_data (snd (resetStore s hot)) = state_data s"
proof (cases "state_data s")
  case None
  then show ?thesis by (simp add: resetStore_def state_def Let_def)
next
  case (Some st)
  let ?s1 = "s\<lparr>actions := [], mutations := [], wrappedGetters := [], modulesNamespaceMap := []\<rparr>"
  obtain r s2 st' where i: "installModule ?s1 st [] (modules ?s1) True = (r, s2, st')"
    by (cases "installModule ?s1 st [] (modules ?s1) True")
  with installModule_hot(1) [of True ?s1 st "[]" "modules ?s1"] have "st' = st" by simp
  with Some i show ?thesis
    by (cases r) (simp_all add: resetStore_def state_def Let_def)
qed

lemma unifyObjectStyle_names_type:
  "names_type a type \<Longrightarrow>
   unifyObjectStyle dev a b c =
     Inr (String type, if isObject a then a else b, if isObject a then b else c)"
  by (cases a) (simp_all add: unifyObjectStyle_def member_def)

lemma console_log_fields [simp]:
  "calls (console_log es s) = calls s"
  "state_data (console_log es s) = state_data s"
  "committing (console_log es s) = committing s"
  "DEV (console_log es s) = DEV s"
  "console (console_log es s) = console s @ es"
  "actions (console_log es s) = actions s"
  "mutations (console_log es s) = mutations s"
  "subscribers (console_log es s) = subscribers s"
  "actionSubscribers (console_log es s) = actionSubscribers s"
  by (simp_all add: console_log_def)

lemma invoke_result:
  "invoke env c s = (r, s') \<Longrightarrow>
   calls s' = calls s @ [(c, committing s)] \<and> committing s' = committing (snd (env c s))"
  by (auto simp: invoke_def split: prod.splits)

lemma commitIterator_calls:
  assumes "\<And>c t. committing (snd (env c t)) = committing t"
    and "commitIterator env entry payload s = (Inr u, s')"
  shows "committing s' = committing s \<and>
         (\<exists>hs. calls s' = calls s @ hs \<and>
               map (\<lambda>(c, w). (wrapped_of c, w)) hs = map (\<lambda>h. (Some (h, payload), committing s)) entry)"
  using assms(2)
proof (induction entry arbitrary: s)
  case Nil
  then show ?case by simp
next
  case (Cons h entry)
  from Cons.prems obtain st where st: "local_state (snd h) s = Inr st"
    by (auto simp: wrappedMutationHandler_def split: sum.splits)
  obtain r s1 where i: "invoke env (MutationHandler (fst h) (snd h) st payload) s = (r, s1)"
    by (cases "invoke env (MutationHandler (fst h) (snd h) st payload) s")
  with Cons.prems st obtain v where r: "r = Inr v"
    by (cases r) (auto simp: wrappedMutationHandler_def)
  from Cons.prems st i r have rest: "commitIterator env entry payload s1 = (Inr u, s')"
    by (simp add: wrappedMutationHandler_def)
  from invoke_result [OF i] assms(1)
  have c1: "calls s1 = calls s @ [(MutationHandler (fst h) (snd h) st payload, committing s)]"
    and f1: "committing s1 = committing s" by simp_all
  from Cons.IH [OF rest] obtain hs where
    "committing s' = committing s1" and "calls s' = calls s1 @ hs"
    and "map (\<lambda>(c, w). (wrapped_of c, w)) hs = map (\<lambda>h. (Some (h, payload), committing s1)) entry"
    by auto
  with c1 f1 show ?case by simp
qed

lemma notify_subscribers_calls:
  assumes "\<And>c t. committing (snd (env c t)) = committing t"
    and "notify_subscribers env subs mutation s = (Inr u, s')"
  shows "\<exists>ns. calls s' = calls s @ ns \<and>
               map (\<lambda>(c, w). (notified c, w)) ns = map (\<lambda>f. (Some (f, mutation), committing s)) subs"
  using assms(2)
proof (induction subs arbitrary: s)
  case Nil
  then show ?case by simp
next
  case (Cons f subs)
  from Cons.prems obtain st where st: "state s = Inr st"
    by (auto split: sum.splits)
  obtain r s1 where i: "invoke env (Subscriber f mutation st) s = (r, s1)"
    by (cases "invoke env (Subscriber f mutation st) s")
  with Cons.prems st obtain v where r: "r = Inr v"
    by (cases r) auto
  from Cons.prems st i r have rest: "notify_subscribers env subs mutation s1 = (Inr u, s')"
    by simp
  from invoke_result [OF i] assms(1)
  have c1: "calls s1 = calls s @ [(Subscriber f mutation st, committing s)]"
    and f1: "committing s1 = committing s" by simp_all
  from Cons.IH [OF rest] obtain ns where
    "calls s' = calls s1 @ ns"
    and "map (\<lambda>(c, w). (notified c, w)) ns = map (\<lambda>f. (Some (f, mutation), committing s1)) subs"
    by auto
  with c1 f1 show ?case by simp
qed

lemma commit_returns_undefined:
  "(case commit env a b c s of (Inl e, s') \<Rightarrow> (Inl e, s') | (Inr r, s') \<Rightarrow> (Inr (Plain Undefined), s'))
     = commit env a b c s"
  by (auto simp: commit_def Let_def split: sum.splits prod.splits option.splits)

lemma map_handlers_length:
  "map_handlers env entry payload s = (Inr ps, s') \<Longrightarrow> length ps = length entry"
  by (induction entry arbitrary: s ps) (auto split: sum.splits prod.splits)

lemma dispatch_result:
  assumes names: "names_type a type"
    and entry: "map_of (actions s) type = Some entry" "entry \<noteq> []"
    and handlers: "map_handlers env entry (if isObject a then a else b)
             (try_subscribers ''before'' env (List.map_filter sub_before (actionSubscribers s))
                (Object [(''type'', String type), (''payload'', if isObject a then a else b)])
                None s) = (Inr ps, s')"
  shows "dispatch env a b s =
           (Inr (Awaitable (NewPromise (if length entry > 1 then PromiseAll ps else hd ps))), s')"
proof -
  define payload where "payload = (if isObject a then a else b)"
  have u: "unifyObjectStyle (DEV s) a b Undefined =
             Inr (String type, payload, if isObject a then b else Undefined)"
    unfolding payload_def using names by (rule unifyObjectStyle_names_type)
  note handlers' = handlers [folded payload_def]
  show ?thesis
  proof (cases "length entry > 1")
    case True
    with u entry handlers' show ?thesis by (simp add: dispatch_def Let_def)
  next
    case False
    with entry(2) obtain h where h: "entry = [h]" by (cases entry) auto
    with handlers' obtain p where
      "wrappedActionHandler env h payload
         (try_subscribers ''before'' env (List.map_filter sub_before (actionSubscribers s))
            (Object [(''type'', String type), (''payload'', payload)]) None s) = (Inr p, s')"
      and "ps = [p]"
      by (auto split: sum.splits prod.splits)
    with h u entry(1) show ?thesis
      by (simp add: dispatch_def Let_def)
  qed
qed

lemma forEach_actionSubscribers_append:
  "forEach_actionSubscribers env (pre @ fs) action err s =
     (case forEach_actionSubscribers env pre action err s of
        (Inl e, s') \<Rightarrow> (Inl e, s')
      | (Inr u, s') \<Rightarrow> forEach_actionSubscribers env fs action err s')"
  by (induction pre arbitrary: s) (auto split: sum.splits prod.splits)

lemma forEach_actionSubscribers_throws:
  "forEach_actionSubscribers env [f] action err s = (Inl e, s') \<Longrightarrow>
   forEach_actionSubscribers env (f # post) action err s = (Inl e, s')"
  by (auto split: sum.splits prod.splits)

lemma try_subscribers_throws:
  assumes "forEach_actionSubscribers env pre action err s = (Inr (), s1)"
    and "forEach_actionSubscribers env [f] action err s1 = (Inl e, s2)"
  shows "try_subscribers phase env (pre @ f # post) action err s =
           (if DEV s2
            then console_log [ConsoleWarn (''[vuex] error in '' @ phase @ '' action subscribers: ''),
                              ConsoleErrorValue e] s2
            else s2)"
  using assms forEach_actionSubscribers_throws [OF assms(2), of post]
  by (simp add: try_subscribers_def forEach_actionSubscribers_append)

lemma earliest_rejection_None:
  "earliest_rejection xs = None \<Longrightarrow> Rejected t e \<notin> set xs"
  by (induction xs rule: earliest_rejection.induct) (auto split: option.splits if_splits)

lemma earliest_rejection_Some:
  "earliest_rejection xs = Some (t, e) \<Longrightarrow>
   Rejected t e \<in> set xs \<and> (\<forall>t' e'. Rejected t' e' \<in> set xs \<longrightarrow> t \<le> t')"
proof (induction xs arbitrary: t e rule: earliest_rejection.induct)
  case 1
  then show ?case by simp
next
  case (2 t0 e0 xs)
  show ?case
  proof (cases "earliest_rejection xs")
    case None
    with 2 earliest_rejection_None [OF None] show ?thesis by auto
  next
    case (Some te)
    obtain t1 e1 where te: "te = (t1, e1)" by (cases te)
    from "2.IH" [of t1 e1] Some te
    have "Rejected t1 e1 \<in> set xs" and "\<forall>t' e'. Rejected t' e' \<in> set xs \<longrightarrow> t1 \<le> t'"
      by simp_all
    with "2.prems" Some te show ?thesis
      by (auto split: if_splits)
  qed
qed auto

lemma all_fulfilled_Some:
  "all_fulfilled xs = Some (t, vs) \<Longrightarrow>
   list_all2 (\<lambda>x v. \<exists>t'. x = Fulfilled t' v \<and> t' \<le> t) xs vs"
proof (induction xs arbitrary: t vs rule: all_fulfilled.induct)
  case 1
  then show ?case by simp
next
  case (2 t0 v xs)
  from "2.prems" obtain t1 vs1 where r: "all_fulfilled xs = Some (t1, vs1)"
    and t: "t = max t0 t1" and vs: "vs = v # vs1"
    by (auto split: option.splits)
  from "2.IH" [OF r]
  have "list_all2 (\<lambda>x v. \<exists>t'. x = Fulfilled t' v \<and> t' \<le> t1) xs vs1" .
  then have "list_all2 (\<lambda>x v. \<exists>t'. x = Fulfilled t' v \<and> t' \<le> t) xs vs1"
    by (rule list_all2_mono) (use t in auto)
  with t vs show ?case by simp
qed simp_all

lemma Promise_all_Fulfilled:
  "Promise_all xs = Fulfilled t v \<Longrightarrow>
   \<exists>vs. v = Values vs \<and> list_all2 (\<lambda>x v. \<exists>t'. x = Fulfilled t' v \<and> t' \<le> t) xs vs"
  by (auto simp: Promise_all_def split: option.splits dest: all_fulfilled_Some)

lemma Promise_all_Rejected:
  assumes "Rejected t e \<in> set xs"
  shows "\<exists>t' e'. Promise_all xs = Rejected t' e' \<and> Rejected t' e' \<in> set xs \<and> t' \<le> t"
proof (cases "earliest_rejection xs")
  case None
  with earliest_rejection_None [OF None, of t e] assms show ?thesis by simp
next
  case (Some te)
  obtain t1 e1 where "te = (t1, e1)" by (cases te)
  with Some earliest_rejection_Some [of xs t1 e1] assms show ?thesis
    by (auto simp: Promise_all_def)
qed

lemma NewPromise_is_new: "NewPromise p \<noteq> p"
  by (induction p) auto

lemma foldl_console:
  "(\<And>t x. \<exists>es. console (f t x) = console t @ es) \<Longrightarrow>
   \<exists>es. console (foldl f s xs) = console s @ es"
proof (induction xs arbitrary: s)
  case Nil
  then show ?case by simp
next
  case (Cons x xs)
  from Cons.prems obtain es where a: "console (f s x) = console s @ es" by blast
  from Cons.IH [OF Cons.prems, of "f s x"] obtain es' where
    "console (foldl f (f s x) xs) = console (f s x) @ es'" by blast
  with a show ?case by simp
qed

lemma installModule_namespace_console:
  "\<exists>es. console (installModule_namespace s ns p m) = console s @ es"
  by (simp add: installModule_namespace_def console_log_def)

lemma installModule_register_console:
  "\<exists>es. console (installModule_register s ns p m) = console s @ es"
proof -
  let ?l = "makeLocalContext ns p"
  let ?s1 = "s\<lparr>modules := modify_at p (set_context ?l) (modules s)\<rparr>"
  let ?s2 = "foldl (\<lambda>t (key, mutation). registerMutation t (ns @ key) mutation ?l)
                 ?s1 (rmutations (raw m))"
  let ?s3 = "foldl (\<lambda>t (key, action).
                        registerAction t (if action_root action then key else ns @ key)
                          (action_handler action) ?l)
                 ?s2 (ractions (raw m))"
  let ?s4 = "foldl (\<lambda>t (key, getter). registerGetter t (ns @ key) getter ?l)
           ?s3 (rgetters (raw m))"
  have "\<exists>es. console ?s2 = console ?s1 @ es"
    by (rule foldl_console) (simp add: split_def registerMutation_def)
  moreover have "\<exists>es. console ?s3 = console ?s2 @ es"
    by (rule foldl_console) (simp add: split_def registerAction_def)
  moreover have "\<exists>es. console ?s4 = console ?s3 @ es"
    by (rule foldl_console) (simp add: split_def registerGetter_def console_log_def)
  ultimately obtain e2 e3 e4 where "console ?s4 = console s @ e2 @ e3 @ e4" by auto
  then show ?thesis unfolding installModule_register_def Let_def by blast
qed

lemma installModule_state_console:
  "\<exists>es. console (snd (installModule_state s rs p m)) = console s @ es"
  by (auto simp: installModule_state_def withCommit_def Let_def console_log_def
           split: sum.splits prod.splits)

lemma installModule_console:
  "\<exists>es. console (fst (snd (installModule s rs p m hot))) = console s @ es"
  "\<exists>es. console (fst (snd (installModule_children s rs p ms hot))) = console s @ es"
proof (induction s rs p m hot and s rs p ms hot rule: installModule_installModule_children.induct)
  case (1 s rootState path m hot)
  show ?case
  proof (cases "getNamespace (modules s) path")
    case (Inl e)
    then show ?thesis by simp
  next
    case (Inr ns)
    define pre where "pre =
      (if path \<noteq> [] \<and> \<not> hot
       then installModule_state (installModule_namespace s ns path m) rootState path m
       else (Inr rootState, installModule_namespace s ns path m))"
    have p: "\<exists>es. console (snd pre) = console s @ es"
      using installModule_namespace_console [of s ns path m]
        installModule_state_console [of "installModule_namespace s ns path m" rootState path m]
      by (auto simp: pre_def)
    obtain r s1 where pre: "pre = (r, s1)" by (cases pre)
    show ?thesis
    proof (cases r)
      case (Inl e)
      with Inr pre p show ?thesis by (simp add: pre_def [symmetric])
    next
      case r: (Inr rs1)
      have "\<exists>es. console (fst (snd (installModule_children (installModule_register s1 ns path m)
                                           rs1 path (children m) hot)))
              = console (installModule_register s1 ns path m) @ es"
        by (rule "1.IH" [OF Inr pre [symmetric, unfolded pre_def] r])
      with installModule_register_console [of s1 ns path m] p pre
      have "\<exists>es. console (fst (snd (installModule_children (installModule_register s1 ns path m)
                                           rs1 path (children m) hot)))
              = console s @ es"
        by auto
      with Inr pre r show ?thesis by (simp add: pre_def [symmetric])
    qed
  qed
next
  case (2 s rootState path hot)
  then show ?case by simp
next
  case (3 s rootState path key child rest hot)
  obtain r s1 rs1 where i: "installModule s rootState (path @ [key]) child hot = (r, s1, rs1)"
    by (cases "installModule s rootState (path @ [key]) child hot")
  from "3.IH"(1) i have a: "\<exists>es. console s1 = console s @ es" by simp
  show ?case
  proof (cases r)
    case (Inl e)
    with i a show ?thesis by simp
  next
    case (Inr u)
    have "\<exists>es. console (fst (snd (installModule_children s1 rs1 path rest hot)))
            = console s1 @ es"
      by (rule "3.IH"(2) [OF i [symmetric] Inr refl])
    with a i Inr show ?thesis by auto
  qed
qed

lemma modify_nested_set_prop:
  "getNestedState rs p = Inr (Object ps) \<Longrightarrow>
   \<exists>rs'. modify_nested rs p (\<lambda>parent. set_prop parent k v) = Inr rs'"
proof (induction p arbitrary: rs)
  case Nil
  then show ?case by simp
next
  case (Cons key p)
  from Cons.prems obtain x where x: "get_prop rs key = Inr x"
    and "getNestedState x p = Inr (Object ps)"
    by (auto split: sum.splits)
  from Cons.IH [OF this(2)] obtain x' where
    "modify_nested x p (\<lambda>parent. set_prop parent k v) = Inr x'" by blast
  with x show ?case by simp
qed

lemma has_prop_True: "has_prop k v = Inr True \<Longrightarrow> \<exists>ps. v = Object ps"
  by (cases v) simp_all

lemma modify_nested_get:
  "getNestedState rs p = Inr (Object ps) \<Longrightarrow>
   modify_nested rs p (\<lambda>parent. set_prop parent k v) = Inr rs' \<Longrightarrow>
   getNestedState rs' (p @ [k]) = Inr v"
proof (induction p arbitrary: rs rs')
  case Nil
  then show ?case by (auto simp: update_conv')
next
  case (Cons key p)
  from Cons.prems(1) obtain x where x: "get_prop rs key = Inr x"
    and g: "getNestedState x p = Inr (Object ps)"
    by (auto split: sum.splits)
  from Cons.prems(2) x obtain x' where m: "modify_nested x p (\<lambda>parent. set_prop parent k v) = Inr x'"
    and rs': "rs' = put_back rs key x'"
    by (auto split: sum.splits)
  have "x \<noteq> Undefined" using g by (cases p) auto
  with x obtain qs where rs: "rs = Object qs" and q: "map_of qs key = Some x"
    by (cases rs) (auto split: option.splits)
  from rs q rs' have "get_prop rs' key = Inr x'" by (simp add: update_conv')
  with Cons.IH [OF g m] show ?case by simp
qed

lemma installModule_state_warns:
  assumes "DEV s"
    and "getNestedState rs (butlast p) = Inr parent"
    and "has_prop (last_key p) parent = Inr True"
  shows "\<exists>rs'. installModule_state s rs p m =
           (Inr rs',
            console_log [ConsoleWarn (''[vuex] state field '' @ dquote @ last_key p @ dquote @
                           '' was overridden by a module with the same name at '' @
                           dquote @ join ''.'' p @ dquote)] s)
           \<and> getNestedState rs' (butlast p @ [last_key p]) = Inr (mstate m)"
proof -
  from has_prop_True [OF assms(3)] obtain ps where ps: "parent = Object ps" by blast
  from modify_nested_set_prop [OF assms(2) [unfolded ps], of "last_key p" "mstate m"] obtain rs' where
    m: "modify_nested rs (butlast p) (\<lambda>parent. set_prop parent (last_key p) (mstate m)) = Inr rs'"
    by blast
  from modify_nested_get [OF assms(2) [unfolded ps] m]
  have "getNestedState rs' (butlast p @ [last_key p]) = Inr (mstate m)" .
  with m assms show ?thesis
    by (simp add: installModule_state_def withCommit_def Let_def console_log_def)
qed

declare skeleton.simps [simp del]

lemma skeleton_Module_update [simp]: "skeleton (Module_update new m) = skeleton m"
  by (simp add: skeleton.simps Module_update_def)

lemma skeleton_set_context [simp]: "skeleton (set_context l m) = skeleton m"
  by (simp add: skeleton.simps set_context_def)

lemma skeleton_children_update:
  "map_of cs key = Some c \<Longrightarrow> skeleton c' = skeleton c \<Longrightarrow>
   skeleton_children (AList.update key c' cs) = skeleton_children cs"
  by (induction cs) auto

lemma skeleton_replace_child:
  "getChild m key = Some c \<Longrightarrow> skeleton c' = skeleton c \<Longrightarrow>
   skeleton (Module (raw m) (runtime m) (mstate m) (mcontext m)
               (AList.update key c' (children m))) = skeleton m"
  by (simp add: skeleton.simps getChild_def skeleton_children_update)

lemma skeleton_update:
  "skeleton (fst (update dev p t new)) = skeleton t"
  "skeleton (fst (update_modules dev p t ms)) = skeleton t"
proof (induction dev p t new and dev p t ms rule: update_update_modules.induct)
  case (1 DEV path targetModule newModule)
  then show ?case by simp
next
  case (2 DEV path targetModule)
  then show ?case by simp
next
  case (3 DEV path targetModule key newChild rest)
  show ?case
  proof (cases "getChild targetModule key")
    case None
    then show ?thesis by simp
  next
    case (Some child)
    obtain child' w where u: "update DEV (path @ [key]) child newChild = (child', w)"
      by (cases "update DEV (path @ [key]) child newChild")
    from "3.IH"(1) [OF Some] u have c: "skeleton child' = skeleton child" by simp
    let ?t = "Module (raw targetModule) (runtime targetModule) (mstate targetModule)
                (mcontext targetModule) (AList.update key child' (children targetModule))"
    have "skeleton (fst (update_modules DEV path ?t rest)) = skeleton ?t"
      by (rule "3.IH"(2) [OF Some u [symmetric]])
    also have "\<dots> = skeleton targetModule"
      using Some c by (rule skeleton_replace_child)
    finally have k: "skeleton (fst (update_modules DEV path ?t rest)) = skeleton targetModule" .
    obtain t2 w2 where um: "update_modules DEV path ?t rest = (t2, w2)"
      by (cases "update_modules DEV path ?t rest")
    with k have "skeleton t2 = skeleton targetModule" by simp
    with Some u um show ?thesis by (simp del: update.simps)
  qed
qed

lemma skeleton_modify_at:
  "(\<And>x. skeleton (f x) = skeleton x) \<Longrightarrow> skeleton (modify_at p f m) = skeleton m"
proof (induction p arbitrary: m)
  case Nil
  then show ?case by simp
next
  case (Cons key p)
  show ?case
  proof (cases "getChild m key")
    case None
    then show ?thesis by simp
  next
    case (Some c)
    have "skeleton (modify_at p f c) = skeleton c" by (rule Cons.IH) (rule Cons.prems)
    with Some show ?thesis by (simp add: skeleton_replace_child)
  qed
qed

lemma installModule_namespace_modules [simp]:
  "modules (installModule_namespace s ns p m) = modules s"
  by (simp add: installModule_namespace_def console_log_def)

lemma installModule_state_modules [simp]:
  "modules (snd (installModule_state s rs p m)) = modules s"
  by (auto simp: installModule_state_def withCommit_def Let_def console_log_def
           split: sum.splits prod.splits)

lemma installModule_register_skeleton [simp]:
  "skeleton (modules (installModule_register s ns p m)) = skeleton (modules s)"
proof -
  have r: "modules (foldl f t xs) = modules t" if "\<And>t x. modules (f t x) = modules t"
    for f :: "store \<Rightarrow> 'a \<Rightarrow> store" and t xs
    using that by (rule foldl_preserves)
  show ?thesis
    unfolding installModule_register_def Let_def
    by (subst r, simp add: split_def registerGetter_def console_log_def,
        subst r, simp add: split_def registerAction_def,
        subst r, simp add: split_def registerMutation_def,
        simp add: skeleton_modify_at)
qed

lemma installModule_skeleton:
  "skeleton (modules (fst (snd (installModule s rs p m hot)))) = skeleton (modules s)"
  "skeleton (modules (fst (snd (installModule_children s rs p ms hot)))) = skeleton (modules s)"
proof (induction s rs p m hot and s rs p ms hot rule: installModule_installModule_children.induct)
  case (1 s rootState path m hot)
  show ?case
  proof (cases "getNamespace (modules s) path")
    case (Inl e)
    then show ?thesis by simp
  next
    case (Inr ns)
    define pre where "pre =
      (if path \<noteq> [] \<and> \<not> hot
       then installModule_state (installModule_namespace s ns path m) rootState path m
       else (Inr rootState, installModule_namespace s ns path m))"
    have p: "modules (snd pre) = modules s"
      by (simp add: pre_def)
    obtain r s1 where pre: "pre = (r, s1)" by (cases pre)
    show ?thesis
    proof (cases r)
      case (Inl e)
      with Inr pre p show ?thesis by (simp add: pre_def [symmetric])
    next
      case r: (Inr rs1)
      have "skeleton (modules (fst (snd (installModule_children (installModule_register s1 ns path m)
                                           rs1 path (children m) hot))))
              = skeleton (modules (installModule_register s1 ns path m))"
        by (rule "1.IH" [OF Inr pre [symmetric, unfolded pre_def] r])
      with p pre Inr r show ?thesis by (simp add: pre_def [symmetric])
    qed
  qed
next
  case (2 s rootState path hot)
  then show ?case by simp
next
  case (3 s rootState path key child rest hot)
  obtain r s1 rs1 where i: "installModule s rootState (path @ [key]) child hot = (r, s1, rs1)"
    by (cases "installModule s rootState (path @ [key]) child hot")
  from "3.IH"(1) i have a: "skeleton (modules s1) = skeleton (modules s)" by simp
  show ?case
  proof (cases r)
    case (Inl e)
    with i a show ?thesis by simp
  next
    case (Inr u)
    have "skeleton (modules (fst (snd (installModule_children s1 rs1 path rest hot))))
            = skeleton (modules s1)"
      by (rule "3.IH"(2) [OF i [symmetric] Inr refl])
    with a i Inr show ?thesis by simp
  qed
qed

lemma resetStoreState_modules [simp]:
  "modules (resetStoreState s st hot r) = modules s"
  by (simp add: resetStoreState_def withCommit_def Let_def)

lemma resetStore_skeleton:
  "skeleton (modules (snd (resetStore s hot))) = skeleton (modules s)"
proof (cases "state_data s")
  case None
  then show ?thesis by (simp add: resetStore_def state_def Let_def)
next
  case (Some st)
  let ?s1 = "s\<lparr>actions := [], mutations := [], wrappedGetters := [], modulesNamespaceMap := []\<rparr>"
  obtain r s2 st' where i: "installModule ?s1 st [] (modules ?s1) True = (r, s2, st')"
    by (cases "installModule ?s1 st [] (modules ?s1) True")
  with installModule_skeleton(1) [of ?s1 st "[]" "modules ?s1" True]
  have "skeleton (modules s2) = skeleton (modules s)" by simp
  with Some i show ?thesis
    by (cases r) (simp_all add: resetStore_def state_def Let_def del: installModule.simps)
qed

section \<open>Namespaces\<close>

lemma get_Cons:
  "getChild root key = Some c \<Longrightarrow> get root (key # p) = get c p"
  by (simp add: get_def)

lemma namespaced_at_Cons:
  "getChild root key = Some c \<Longrightarrow> namespaced_at root (key # p) = namespaced_at c p"
  by (simp add: namespaced_at_def get_Cons)

lemma namespace_of_path_Cons:
  assumes "getChild root key = Some c"
  shows "namespace_of_path root (key # p) =
           (if namespaced c then key @ ''/'' else '''') @ namespace_of_path c p"
proof -
  have upt: "[0..<length (key # p)] = 0 # map Suc [0..<length p]"
    by (simp add: upt_conv_Cons map_Suc_upt del: upt_Suc)
  have first: "namespaced_at root (take (Suc 0) (key # p)) = namespaced c"
    using assms by (simp add: namespaced_at_def get_def)
  have rest: "namespaced_at root (take (Suc (Suc i)) (key # p)) = namespaced_at c (take (Suc i) p)"
    for i
    using assms by (simp add: namespaced_at_Cons)
  show ?thesis
    unfolding namespace_of_path_def upt
    by (simp add: first rest comp_def del: upt_Suc take_Suc_Cons cong: if_cong)
qed

lemma getNamespace_from_acc:
  "getNamespace_from m (ns @ acc) p =
     (case getNamespace_from m acc p of Inl e \<Rightarrow> Inl e | Inr r \<Rightarrow> Inr (ns @ r))"
  by (induction p arbitrary: m acc) (auto split: option.splits)

lemma get_from_defined:
  "get_from acc p = Inr (Some m) \<Longrightarrow> acc \<noteq> None"
  by (cases p; cases acc) auto

text \<open>
  C3. For every path that resolves to a module of the tree, \<open>getNamespace\<close> returns
  the concatenation, in order from the root along the path, of key + "/" for exactly
  the modules on the path (the node itself included) whose \<open>namespaced\<close> flag is true;
  modules that are not namespaced contribute nothing.
\<close>

theorem getNamespace_is_namespaced_prefix:
  "get root p = Inr (Some m) \<Longrightarrow> getNamespace root p = Inr (namespace_of_path root p)"
proof (induction p arbitrary: root)
  case Nil
  then show ?case by (simp add: getNamespace_def namespace_of_path_def)
next
  case (Cons key p)
  from Cons.prems obtain c where c: "getChild root key = Some c"
    using get_from_defined [of "getChild root key" p m] by (auto simp: get_def)
  with Cons.prems have "get c p = Inr (Some m)" by (simp add: get_def)
  then have ih: "getNamespace c p = Inr (namespace_of_path c p)" by (rule Cons.IH)
  have "getNamespace root (key # p) =
          getNamespace_from c ((if namespaced c then key @ ''/'' else '''') @ []) p"
    using c by (simp add: getNamespace_def)
  also have "\<dots> = Inr ((if namespaced c then key @ ''/'' else '''') @ namespace_of_path c p)"
    using ih unfolding getNamespace_from_acc by (simp add: getNamespace_def)
  finally show ?case using c by (simp add: namespace_of_path_Cons)
qed

text \<open>The example of the specification: on the path a, b with only \<open>a\<close> namespaced
  the namespace is "a/".\<close>

theorem getNamespace_is_namespaced_prefix_witness:
  "get (modules (example_store True)) [''a'', ''b''] =
     Inr (Some (Module (RawModule (Object []) False [(''inc'', ''incB'')]
                          [(''load'', ActionFn ''reject'')] [] [])
                  False (Object [])
                  (Some \<lparr>local_namespace = ''a/'', local_path = [''a'', ''b'']\<rparr>) []))
   \<and> getNamespace (modules (example_store True)) [''a'', ''b''] = Inr ''a/''"
proof -
  have found: "get (modules (example_store True)) [''a'', ''b''] =
     Inr (Some (Module (RawModule (Object []) False [(''inc'', ''incB'')]
                          [(''load'', ActionFn ''reject'')] [] [])
                  False (Object [])
                  (Some \<lparr>local_namespace = ''a/'', local_path = [''a'', ''b'']\<rparr>) []))"
    by code_simp
  have "namespace_of_path (modules (example_store True)) [''a'', ''b''] = ''a/''"
    by code_simp
  with getNamespace_is_namespaced_prefix [OF found] found show ?thesis by simp
qed

section \<open>Hot update\<close>

text \<open>
  C9. \<open>hotUpdate\<close> leaves the composed state tree as it was: the state of the store
  after \<open>hotUpdate(newOptions)\<close> is the state before it, whatever the new definition
  is (so also when it only replaces mutations, actions and getters of existing
  modules), and also when the call throws. The module tree keeps every module, with
  its materialized state, where it was: only definitions and contexts change.
\<close>

theorem hotUpdate_preserves_state:
  "state_data (snd (hotUpdate newOptions s)) = state_data s
   \<and> skeleton (modules (snd (hotUpdate newOptions s))) = skeleton (modules s)"
proof -
  obtain root w where u: "update (DEV s) [] (modules s) newOptions = (root, w)"
    by (cases "update (DEV s) [] (modules s) newOptions")
  with skeleton_update(1) [of "DEV s" "[]" "modules s" newOptions]
  have "skeleton root = skeleton (modules s)" by simp
  with u show ?thesis
    by (simp add: hotUpdate_def resetStore_state_data resetStore_skeleton console_log_def)
qed

text \<open>On the example store, a hot update that replaces the handler of the mutation
  \<open>inc\<close> of the root: the registry has the new handler, the state is the same.\<close>

lemma hotUpdate_example:
  "map_of (mutations (example_store True)) ''inc''
     = Some [(''incRoot'', \<lparr>local_namespace = '''', local_path = []\<rparr>)]
   \<and> fst (hotUpdate (RawModule Undefined False [(''inc'', ''incNew'')] [] [] []) (example_store True))
       = Inr ()
   \<and> map_of (mutations (snd (hotUpdate (RawModule Undefined False [(''inc'', ''incNew'')] [] [] [])
                                  (example_store True)))) ''inc''
       = Some [(''incNew'', \<lparr>local_namespace = '''', local_path = []\<rparr>)]
   \<and> state (snd (hotUpdate (RawModule Undefined False [(''inc'', ''incNew'')] [] [] [])
                     (example_store True)))
       = state (example_store True)"
  by code_simp

section \<open>The committing window\<close>










section \<open>Types without an entry\<close>

text \<open>
  C7, as amended. A commit or dispatch whose type, a string given as the name or
  carried by an object, has no entry in the registry returns \<open>undefined\<close> and throws
  nothing; the store afterwards is the store before but for the console, so no
  handler has run, no subscriber was called and the state is unchanged. The error is
  written to the console in a development build only.
\<close>

theorem unknown_type_is_noop:
  "(names_type a type \<and> map_of (mutations s) type = None \<longrightarrow>
      commit env a b c s =
        (Inr (Plain Undefined),
         s\<lparr>console := console s @
              (if DEV s then [ConsoleError (''[vuex] unknown mutation type: '' @ type)] else [])\<rparr>))
   \<and> (names_type a type \<and> map_of (actions s) type = None \<longrightarrow>
      dispatch env a b s =
        (Inr (Plain Undefined),
         s\<lparr>console := console s @
              (if DEV s then [ConsoleError (''[vuex] unknown action type: '' @ type)] else [])\<rparr>))"
proof (intro conjI impI)
  assume h: "names_type a type \<and> map_of (mutations s) type = None"
  then have "unifyObjectStyle (DEV s) a b c =
               Inr (String type, if isObject a then a else b, if isObject a then b else c)"
    by (simp add: unifyObjectStyle_names_type)
  with h show "commit env a b c s =
        (Inr (Plain Undefined),
         s\<lparr>console := console s @
              (if DEV s then [ConsoleError (''[vuex] unknown mutation type: '' @ type)] else [])\<rparr>)"
    by (simp add: commit_def console_log_def)
next
  assume h: "names_type a type \<and> map_of (actions s) type = None"
  then have "unifyObjectStyle (DEV s) a b Undefined =
               Inr (String type, if isObject a then a else b, if isObject a then b else Undefined)"
    by (simp add: unifyObjectStyle_names_type)
  with h show "dispatch env a b s =
        (Inr (Plain Undefined),
         s\<lparr>console := console s @
              (if DEV s then [ConsoleError (''[vuex] unknown action type: '' @ type)] else [])\<rparr>)"
    by (simp add: dispatch_def console_log_def)
qed

theorem unknown_type_is_noop_witness:
  "names_type (String ''nope'') ''nope''
   \<and> map_of (mutations (example_store True)) ''nope'' = None
   \<and> map_of (actions (example_store True)) ''nope'' = None
   \<and> commit example_env (String ''nope'') (Number ''1'') Undefined (example_store True) =
        (Inr (Plain Undefined),
         (example_store True)\<lparr>console := [ConsoleError ''[vuex] unknown mutation type: nope'']\<rparr>)
   \<and> dispatch example_env (String ''nope'') (Number ''1'') (example_store True) =
        (Inr (Plain Undefined),
         (example_store True)\<lparr>console := [ConsoleError ''[vuex] unknown action type: nope'']\<rparr>)"
proof -
  have n: "names_type (String ''nope'') ''nope''" by simp
  have m: "map_of (mutations (example_store True)) ''nope'' = None" by code_simp
  have a: "map_of (actions (example_store True)) ''nope'' = None" by code_simp
  have d: "DEV (example_store True)" by code_simp
  have c: "console (example_store True) = []" by code_simp
  from unknown_type_is_noop [of "String ''nope''" "''nope''" "example_store True" example_env
         "Number ''1''" Undefined] n m a d c
  show ?thesis by simp
qed

text \<open>In a production build the call is not reported: it leaves the store, console
  included, exactly as it was.\<close>

theorem unknown_type_unreported_in_production:
  "map_of (mutations (example_store False)) ''nope'' = None
   \<and> commit example_env (String ''nope'') (Number ''1'') Undefined (example_store False) =
        (Inr (Plain Undefined), example_store False)"
  by code_simp

section \<open>Unregistering a module declared at construction\<close>

text \<open>
  C1. The module \<open>a\<close> of the example store was declared at construction (its
  \<open>runtime\<close> flag is false). \<open>unregisterModule('a')\<close> returns and leaves it
  registered, as \<open>unregister\<close> of the module collection returns early; but
  \<open>unregisterModule\<close> goes on to delete the property \<open>a\<close> of the state, and the
  reset that follows is hot and does not set it again: the state slice is gone.
\<close>

theorem unregisterModule_static_deletes_state:
  "get (modules (example_store True)) [''a''] \<noteq> Inr None
   \<and> (case get (modules (example_store True)) [''a''] of
         Inr (Some m) \<Rightarrow> runtime m | _ \<Rightarrow> False) = False
   \<and> state (example_store True) =
        Inr (Object [(''n'', Number ''0''), (''a'', Object [(''n'', Number ''1''), (''b'', Object [])])])
   \<and> fst (unregisterModule (PathString ''a'') (example_store True)) = Inr ()
   \<and> hasModule (PathString ''a'') (snd (unregisterModule (PathString ''a'') (example_store True)))
        = Inr True
   \<and> state (snd (unregisterModule (PathString ''a'') (example_store True)))
        = Inr (Object [(''n'', Number ''0'')])"
  by code_simp

section \<open>Commit\<close>

lemma commitIterator_each_in_order:
  "commitIterator env entry payload s = each_in_order env (map (handler_call payload) entry) s"
proof (induction entry arbitrary: s)
  case Nil
  then show ?case by simp
next
  case (Cons h entry)
  then show ?case
    by (simp add: wrappedMutationHandler_def handler_call_def local_state_def state_def invoke_def
             split: option.splits sum.splits prod.splits)
qed

lemma notify_subscribers_each_in_order:
  "notify_subscribers env subs mutation s = each_in_order env (map (subscriber_call mutation) subs) s"
proof (induction subs arbitrary: s)
  case Nil
  then show ?case by simp
next
  case (Cons f subs)
  then show ?case
    by (simp add: subscriber_call_def state_def invoke_def
             split: option.splits sum.splits prod.splits)
qed

lemma commitIterator_throws_calls:
  assumes "\<And>c t. committing (snd (env c t)) = committing t"
    and "commitIterator env entry payload s = (Inl e, s')"
  shows "\<exists>hs. calls s' = calls s @ hs \<and> length hs \<le> length entry \<and>
               map (\<lambda>(c, w). (wrapped_of c, w)) hs =
                 map (\<lambda>h. (Some (h, payload), committing s)) (take (length hs) entry)"
  using assms(2)
proof (induction entry arbitrary: s)
  case Nil
  then show ?case by simp
next
  case (Cons h entry)
  show ?case
  proof (cases "local_state (snd h) s")
    case (Inl e')
    with Cons.prems have "s' = s" by (simp add: wrappedMutationHandler_def)
    then show ?thesis by simp
  next
    case (Inr st)
    obtain r s1 where i: "invoke env (MutationHandler (fst h) (snd h) st payload) s = (r, s1)"
      by (cases "invoke env (MutationHandler (fst h) (snd h) st payload) s")
    from invoke_result [OF i] assms(1)
    have c1: "calls s1 = calls s @ [(MutationHandler (fst h) (snd h) st payload, committing s)]"
      and f1: "committing s1 = committing s" by simp_all
    show ?thesis
    proof (cases r)
      case (Inl e')
      with Cons.prems Inr i have "s' = s1" by (simp add: wrappedMutationHandler_def)
      with c1 show ?thesis
        by (intro exI [of _ "[(MutationHandler (fst h) (snd h) st payload, committing s)]"]) simp
    next
      case r: (Inr v)
      with Cons.prems Inr i have rest: "commitIterator env entry payload s1 = (Inl e, s')"
        by (simp add: wrappedMutationHandler_def)
      from Cons.IH [OF rest] obtain hs where
        "calls s' = calls s1 @ hs" and "length hs \<le> length entry"
        and "map (\<lambda>(c, w). (wrapped_of c, w)) hs =
               map (\<lambda>h. (Some (h, payload), committing s1)) (take (length hs) entry)"
        by auto
      with c1 f1 show ?thesis
        by (intro exI [of _ "(MutationHandler (fst h) (snd h) st payload, committing s) # hs"]) simp
    qed
  qed
qed

text \<open>
  C4, as amended. A commit of a type with the entry \<open>entry\<close> (the type given as the
  name or carried by an object) does this and nothing else: with \<open>_committing\<close> true
  it calls the handlers of the entry, each once, in the order of the entry, each with
  its local state and the payload and on the store as the handler before it left it;
  a handler that throws ends the commit, so that the handlers after it and the
  subscribers are not called and the caller gets the error; when all handlers have
  returned, the flag is put back and the subscribers that the store has then are called,
  each once, with the mutation and the state. In the record of calls, with user
  functions that leave \<open>_committing\<close> as they find it: a commit that returns has made
  one call to each handler with the flag true, then one call to each subscriber with
  the flag as it was before the commit; a commit that a handler ended has called the
  handlers up to that one, and no subscriber. The order of the entry is the order of
  registration: \<open>registerMutation\<close> puts a handler after those the entry holds.
\<close>

theorem commit_runs_every_handler_once:
  assumes entry: "map_of (mutations s) type = Some entry"
    and names: "names_type a type"
  shows "commit env a b c s =
           (case each_in_order env (map (handler_call (if isObject a then a else b)) entry)
                   (s\<lparr>committing := True\<rparr>) of
              (Inl e, t) \<Rightarrow> (Inl e, t)
            | (Inr u, t) \<Rightarrow>
                (case each_in_order env
                        (map (subscriber_call (Object [(''type'', String type),
                                                       (''payload'', if isObject a then a else b)]))
                           (subscribers t))
                        (t\<lparr>committing := committing s\<rparr>) of
                   (Inl e, t') \<Rightarrow> (Inl e, t')
                 | (Inr u', t') \<Rightarrow>
                     (Inr (Plain Undefined),
                      if DEV t' \<and> option_set (if isObject a then b else c) ''silent''
                      then console_log
                             [ConsoleWarn (''[vuex] mutation type: '' @ type @
                                ''. Silent option has been removed. '' @
                                ''Use the filter functionality in the vue-devtools'')] t'
                      else t')))
         \<and> ((\<forall>c t. committing (snd (env c t)) = committing t) \<and> fst (commit env a b c s) = Inr r
            \<longrightarrow> (\<exists>hs ns.
                   calls (snd (commit env a b c s)) = calls s @ hs @ ns
                 \<and> map (\<lambda>(c, w). (wrapped_of c, w)) hs =
                     map (\<lambda>h. (Some (h, if isObject a then a else b), True)) entry
                 \<and> map (\<lambda>(c, w). (notified c, w)) ns =
                     map (\<lambda>f. (Some (f, Object [(''type'', String type),
                                                  (''payload'', if isObject a then a else b)]),
                                 committing s))
                       (subscribers
                          (snd (each_in_order env
                                  (map (handler_call (if isObject a then a else b)) entry)
                                  (s\<lparr>committing := True\<rparr>))))))
         \<and> ((\<forall>c t. committing (snd (env c t)) = committing t)
              \<and> fst (each_in_order env (map (handler_call (if isObject a then a else b)) entry)
                       (s\<lparr>committing := True\<rparr>)) = Inl x
            \<longrightarrow> fst (commit env a b c s) = Inl x
                \<and> (\<exists>hs. calls (snd (commit env a b c s)) = calls s @ hs
                       \<and> length hs \<le> length entry
                       \<and> map (\<lambda>(c, w). (wrapped_of c, w)) hs =
                           map (\<lambda>h. (Some (h, if isObject a then a else b), True))
                             (take (length hs) entry)))
         \<and> map_of (mutations (registerMutation s type handler l)) type = Some (entry @ [(handler, l)])"
proof (intro conjI impI)
  let ?payload = "if isObject a then a else b"
  let ?mutation = "Object [(''type'', String type), (''payload'', ?payload)]"
  let ?run = "each_in_order env (map (handler_call ?payload) entry) (s\<lparr>committing := True\<rparr>)"
  have u: "unifyObjectStyle (DEV s) a b c =
             Inr (String type, ?payload, if isObject a then b else c)"
    using names by (rule unifyObjectStyle_names_type)
  have it: "commitIterator env entry ?payload (s\<lparr>committing := True\<rparr>) = ?run"
    by (rule commitIterator_each_in_order)
  show eq: "commit env a b c s =
           (case ?run of
              (Inl e, t) \<Rightarrow> (Inl e, t)
            | (Inr u, t) \<Rightarrow>
                (case each_in_order env (map (subscriber_call ?mutation) (subscribers t))
                        (t\<lparr>committing := committing s\<rparr>) of
                   (Inl e, t') \<Rightarrow> (Inl e, t')
                 | (Inr u', t') \<Rightarrow>
                     (Inr (Plain Undefined),
                      if DEV t' \<and> option_set (if isObject a then b else c) ''silent''
                      then console_log
                             [ConsoleWarn (''[vuex] mutation type: '' @ type @
                                ''. Silent option has been removed. '' @
                                ''Use the filter functionality in the vue-devtools'')] t'
                      else t')))"
  proof -
    obtain r1 t1 where run: "?run = (r1, t1)" by (cases ?run)
    show ?thesis
    proof (cases r1)
      case (Inl e)
      with run it entry show ?thesis
        by (simp add: commit_def u withCommit_def Let_def
                 del: commitIterator.simps each_in_order.simps)
    next
      case (Inr u1)
      obtain r2 t2 where
        n: "each_in_order env (map (subscriber_call ?mutation) (subscribers t1))
              (t1\<lparr>committing := committing s\<rparr>) = (r2, t2)"
        by (cases "each_in_order env (map (subscriber_call ?mutation) (subscribers t1))
              (t1\<lparr>committing := committing s\<rparr>)")
      with run it entry Inr show ?thesis
        by (cases r2)
           (simp_all add: commit_def u withCommit_def Let_def notify_subscribers_each_in_order
                 del: commitIterator.simps each_in_order.simps notify_subscribers.simps)
    qed
  qed
  show "map_of (mutations (registerMutation s type handler l)) type = Some (entry @ [(handler, l)])"
    using entry by (simp add: registerMutation_def push_entry_def update_conv')
  show "\<exists>hs ns.
           calls (snd (commit env a b c s)) = calls s @ hs @ ns
         \<and> map (\<lambda>(c, w). (wrapped_of c, w)) hs = map (\<lambda>h. (Some (h, ?payload), True)) entry
         \<and> map (\<lambda>(c, w). (notified c, w)) ns =
             map (\<lambda>f. (Some (f, ?mutation), committing s)) (subscribers (snd ?run))"
    if h: "(\<forall>c t. committing (snd (env c t)) = committing t) \<and> fst (commit env a b c s) = Inr r"
  proof -
    from h have env: "\<forall>c t. committing (snd (env c t)) = committing t"
      and returns: "fst (commit env a b c s) = Inr r" by simp_all
    obtain r1 t1 where run: "?run = (r1, t1)" by (cases ?run)
    with returns eq obtain u1 where r1: "r1 = Inr u1"
      by (cases r1) (simp_all del: each_in_order.simps)
    from commitIterator_calls [OF _ it [unfolded run r1]] env obtain hs where
      hs: "calls t1 = calls s @ hs"
        "map (\<lambda>(c, w). (wrapped_of c, w)) hs = map (\<lambda>h. (Some (h, ?payload), True)) entry"
      by auto
    let ?s1 = "t1\<lparr>committing := committing s\<rparr>"
    obtain r2 s2 where n: "notify_subscribers env (subscribers t1) ?mutation ?s1 = (r2, s2)"
      by (cases "notify_subscribers env (subscribers t1) ?mutation ?s1")
    with returns eq run r1 obtain u2 where r2: "r2 = Inr u2"
      by (cases r2) (simp_all add: notify_subscribers_each_in_order del: each_in_order.simps)
    from notify_subscribers_calls [OF _ n [unfolded r2]] env obtain ns where
      ns: "calls s2 = calls ?s1 @ ns"
        "map (\<lambda>(c, w). (notified c, w)) ns =
           map (\<lambda>f. (Some (f, ?mutation), committing ?s1)) (subscribers t1)"
      by auto
    have "calls (snd (commit env a b c s)) = calls s2"
      using eq run r1 n r2 by (simp add: notify_subscribers_each_in_order del: each_in_order.simps)
    with hs ns run show ?thesis
      by (intro exI [of _ hs] exI [of _ ns]) simp
  qed
  show "fst (commit env a b c s) = Inl x"
    if "(\<forall>c t. committing (snd (env c t)) = committing t) \<and> fst ?run = Inl x"
    using that eq by (cases ?run) (simp del: each_in_order.simps)
  show "\<exists>hs. calls (snd (commit env a b c s)) = calls s @ hs
           \<and> length hs \<le> length entry
           \<and> map (\<lambda>(c, w). (wrapped_of c, w)) hs =
               map (\<lambda>h. (Some (h, ?payload), True)) (take (length hs) entry)"
    if h: "(\<forall>c t. committing (snd (env c t)) = committing t) \<and> fst ?run = Inl x"
  proof -
    from h obtain t1 where run: "?run = (Inl x, t1)" by (cases ?run) (simp del: each_in_order.simps)
    from commitIterator_throws_calls [OF _ it [unfolded run]] h obtain hs where
      "calls t1 = calls s @ hs" "length hs \<le> length entry"
      "map (\<lambda>(c, w). (wrapped_of c, w)) hs =
         map (\<lambda>h. (Some (h, ?payload), True)) (take (length hs) entry)"
      by auto
    moreover have "snd (commit env a b c s) = t1" using eq run by (simp del: each_in_order.simps)
    ultimately show ?thesis by (intro exI [of _ hs]) simp
  qed
qed

text \<open>
  The example store with the subscriber \<open>watch\<close>: the commit of \<open>a/inc\<close> runs the
  handlers of the modules \<open>a\<close> and \<open>b\<close>, which write to the state, and then the
  subscriber. The store of the failing options: the commit of \<open>boom\<close> ends at its
  first handler.
\<close>

theorem commit_runs_every_handler_once_witness:
  "map_of (mutations (watched_store True)) ''a/inc'' =
     Some [(''incA'', \<lparr>local_namespace = ''a/'', local_path = [''a'']\<rparr>),
           (''incB'', \<lparr>local_namespace = ''a/'', local_path = [''a'', ''b'']\<rparr>)]
   \<and> state (watched_store True)
       = Inr (Object [(''n'', Number ''0''), (''a'', Object [(''n'', Number ''1''), (''b'', Object [])])])
   \<and> fst (commit example_env (String ''a/inc'') (Number ''5'') Undefined (watched_store True))
       = Inr (Plain Undefined)
   \<and> state (snd (commit example_env (String ''a/inc'') (Number ''5'') Undefined (watched_store True)))
       = Inr (Object [(''n'', Number ''0''),
                      (''a'', Object [(''n'', Number ''1''),
                                      (''b'', Object [(''incB'', Number ''5'')]),
                                      (''incA'', Number ''5'')])])
   \<and> (\<exists>hs ns.
         calls (snd (commit example_env (String ''a/inc'') (Number ''5'') Undefined
                  (watched_store True))) = hs @ ns
       \<and> map (\<lambda>(c, w). (wrapped_of c, w)) hs =
           [(Some ((''incA'', \<lparr>local_namespace = ''a/'', local_path = [''a'']\<rparr>), Number ''5''), True),
            (Some ((''incB'', \<lparr>local_namespace = ''a/'', local_path = [''a'', ''b'']\<rparr>), Number ''5''), True)]
       \<and> map (\<lambda>(c, w). (notified c, w)) ns =
           [(Some (''watch'', Object [(''type'', String ''a/inc''), (''payload'', Number ''5'')]), False)])
   \<and> map_of (mutations (failing_store True)) ''boom'' =
       Some [(''fail'', \<lparr>local_namespace = '''', local_path = []\<rparr>),
             (''incC'', \<lparr>local_namespace = '''', local_path = [''c'']\<rparr>)]
   \<and> fst (commit example_env (String ''boom'') (Number ''1'') Undefined (failing_store True))
       = Inl (String ''mutation failed'')
   \<and> (\<exists>hs.
         calls (snd (commit example_env (String ''boom'') (Number ''1'') Undefined
                  (failing_store True))) = hs
       \<and> length hs \<le> 2
       \<and> map (\<lambda>(c, w). (wrapped_of c, w)) hs =
           map (\<lambda>h. (Some (h, Number ''1''), True))
             (take (length hs)
                [(''fail'', \<lparr>local_namespace = '''', local_path = []\<rparr>),
                 (''incC'', \<lparr>local_namespace = '''', local_path = [''c'']\<rparr>)]))"
proof -
  let ?s = "watched_store True"
  let ?entry = "[(''incA'', \<lparr>local_namespace = ''a/'', local_path = [''a'']\<rparr>),
                 (''incB'', \<lparr>local_namespace = ''a/'', local_path = [''a'', ''b'']\<rparr>)]"
  let ?p = "if isObject (String ''a/inc'') then String ''a/inc'' else Number ''5''"
  let ?after = "snd (commit example_env (String ''a/inc'') (Number ''5'') Undefined ?s)"
  have entry: "map_of (mutations ?s) ''a/inc'' = Some ?entry" by code_simp
  have names: "names_type (String ''a/inc'') ''a/inc''" by simp
  have env: "\<forall>c t. committing (snd (example_env c t)) = committing t"
    by (simp add: example_env_def split: call.splits)
  have st: "state ?s
       = Inr (Object [(''n'', Number ''0''), (''a'', Object [(''n'', Number ''1''), (''b'', Object [])])])"
    by code_simp
  have before: "calls ?s = []" "committing ?s = False" by code_simp+
  note returning = commit_runs_every_handler_once
    [OF entry names, where env = example_env and b = "Number ''5''" and c = Undefined
       and r = "Plain Undefined" and x = "String ''mutation failed''"
       and handler = "''incC''" and l = "makeLocalContext [] []"]
  have subs: "subscribers (snd (each_in_order example_env (map (handler_call ?p) ?entry)
                                  (?s\<lparr>committing := True\<rparr>)))
                = [''watch'']" by code_simp
  have rhs: "fst (case each_in_order example_env (map (handler_call ?p) ?entry)
                     (?s\<lparr>committing := True\<rparr>) of
              (Inl e, t) \<Rightarrow> (Inl e, t)
            | (Inr u, t) \<Rightarrow>
                (case each_in_order example_env
                        (map (subscriber_call (Object [(''type'', String ''a/inc''), (''payload'', ?p)]))
                           (subscribers t))
                        (t\<lparr>committing := committing ?s\<rparr>) of
                   (Inl e, t') \<Rightarrow> (Inl e, t')
                 | (Inr u', t') \<Rightarrow>
                     (Inr (Plain Undefined),
                      if DEV t' \<and> option_set (if isObject (String ''a/inc'') then Number ''5'' else Undefined) ''silent''
                      then console_log
                             [ConsoleWarn (''[vuex] mutation type: '' @ ''a/inc'' @
                                ''. Silent option has been removed. '' @
                                ''Use the filter functionality in the vue-devtools'')] t'
                      else t'))) = Inr (Plain Undefined)
        \<and> state (snd (case each_in_order example_env (map (handler_call ?p) ?entry)
                     (?s\<lparr>committing := True\<rparr>) of
              (Inl e, t) \<Rightarrow> (Inl e, t)
            | (Inr u, t) \<Rightarrow>
                (case each_in_order example_env
                        (map (subscriber_call (Object [(''type'', String ''a/inc''), (''payload'', ?p)]))
                           (subscribers t))
                        (t\<lparr>committing := committing ?s\<rparr>) of
                   (Inl e, t') \<Rightarrow> (Inl e, t')
                 | (Inr u', t') \<Rightarrow>
                     (Inr (Plain Undefined),
                      if DEV t' \<and> option_set (if isObject (String ''a/inc'') then Number ''5'' else Undefined) ''silent''
                      then console_log
                             [ConsoleWarn (''[vuex] mutation type: '' @ ''a/inc'' @
                                ''. Silent option has been removed. '' @
                                ''Use the filter functionality in the vue-devtools'')] t'
                      else t'))))
          = Inr (Object [(''n'', Number ''0''),
                      (''a'', Object [(''n'', Number ''1''),
                                      (''b'', Object [(''incB'', Number ''5'')]),
                                      (''incA'', Number ''5'')])])"
    by code_simp
  from rhs have returns: "fst (commit example_env (String ''a/inc'') (Number ''5'') Undefined ?s)
                   = Inr (Plain Undefined)"
    and st': "state ?after
       = Inr (Object [(''n'', Number ''0''),
                      (''a'', Object [(''n'', Number ''1''),
                                      (''b'', Object [(''incB'', Number ''5'')]),
                                      (''incA'', Number ''5'')])])"
    unfolding returning [THEN conjunct1] by (rule conjunct1, rule conjunct2)
  from returning [THEN conjunct2, THEN conjunct1, rule_format, OF conjI [OF env returns]]
  obtain hs ns where
    a: "calls ?after = calls ?s @ hs @ ns"
    and b: "map (\<lambda>(c, w). (wrapped_of c, w)) hs = map (\<lambda>h. (Some (h, ?p), True)) ?entry"
    and c: "map (\<lambda>(c, w). (notified c, w)) ns =
             map (\<lambda>f. (Some (f, Object [(''type'', String ''a/inc''), (''payload'', ?p)]),
                         committing ?s))
               (subscribers (snd (each_in_order example_env (map (handler_call ?p) ?entry)
                                    (?s\<lparr>committing := True\<rparr>))))"
    by (elim exE conjE)
  have a': "calls ?after = hs @ ns" using a before by simp
  have b': "map (\<lambda>(c, w). (wrapped_of c, w)) hs =
           [(Some ((''incA'', \<lparr>local_namespace = ''a/'', local_path = [''a'']\<rparr>), Number ''5''), True),
            (Some ((''incB'', \<lparr>local_namespace = ''a/'', local_path = [''a'', ''b'']\<rparr>), Number ''5''), True)]"
    using b by simp
  have c': "map (\<lambda>(c, w). (notified c, w)) ns =
           [(Some (''watch'', Object [(''type'', String ''a/inc''), (''payload'', Number ''5'')]), False)]"
    unfolding c subs before by simp
  from a' b' c' have 1: "\<exists>hs ns. calls ?after = hs @ ns
       \<and> map (\<lambda>(c, w). (wrapped_of c, w)) hs =
           [(Some ((''incA'', \<lparr>local_namespace = ''a/'', local_path = [''a'']\<rparr>), Number ''5''), True),
            (Some ((''incB'', \<lparr>local_namespace = ''a/'', local_path = [''a'', ''b'']\<rparr>), Number ''5''), True)]
       \<and> map (\<lambda>(c, w). (notified c, w)) ns =
           [(Some (''watch'', Object [(''type'', String ''a/inc''), (''payload'', Number ''5'')]), False)]"
    by (intro exI [of _ hs] exI [of _ ns] conjI)
  let ?f = "failing_store True"
  let ?fentry = "[(''fail'', \<lparr>local_namespace = '''', local_path = []\<rparr>),
                  (''incC'', \<lparr>local_namespace = '''', local_path = [''c'']\<rparr>)]"
  let ?q = "if isObject (String ''boom'') then String ''boom'' else Number ''1''"
  have fentry: "map_of (mutations ?f) ''boom'' = Some ?fentry" by code_simp
  have fnames: "names_type (String ''boom'') ''boom''" by simp
  have fbefore: "calls ?f = []" by code_simp
  have fthrows: "fst (each_in_order example_env (map (handler_call ?q) ?fentry)
                        (?f\<lparr>committing := True\<rparr>)) = Inl (String ''mutation failed'')"
    by code_simp
  note throwing = commit_runs_every_handler_once
    [OF fentry fnames, where env = example_env and b = "Number ''1''" and c = Undefined
       and r = "Plain Undefined" and x = "String ''mutation failed''"
       and handler = "''incC''" and l = "makeLocalContext [] []",
     THEN conjunct2, THEN conjunct2, THEN conjunct1, rule_format, OF conjI [OF env fthrows]]
  from throwing have 2: "fst (commit example_env (String ''boom'') (Number ''1'') Undefined ?f)
       = Inl (String ''mutation failed'')" by (rule conjunct1)
  from throwing [THEN conjunct2] obtain hs' where
    "calls (snd (commit example_env (String ''boom'') (Number ''1'') Undefined ?f)) = calls ?f @ hs'"
    "length hs' \<le> length ?fentry"
    "map (\<lambda>(c, w). (wrapped_of c, w)) hs' =
       map (\<lambda>h. (Some (h, ?q), True)) (take (length hs') ?fentry)"
    by (elim exE conjE)
  with fbefore have 3: "\<exists>hs.
         calls (snd (commit example_env (String ''boom'') (Number ''1'') Undefined ?f)) = hs
       \<and> length hs \<le> 2
       \<and> map (\<lambda>(c, w). (wrapped_of c, w)) hs =
           map (\<lambda>h. (Some (h, Number ''1''), True)) (take (length hs) ?fentry)"
    by simp
  from entry st returns st' 1 fentry 2 3 show ?thesis by (intro conjI)
qed

text \<open>
  The claim as stated fails when a handler throws. In the store of the failing options
  the mutation \<open>boom\<close> has two handlers and the store has a subscriber; one commit
  of \<open>boom\<close> calls the first handler only, which throws: the second handler is
  not called, the subscriber is not notified, and the commit throws.
\<close>

theorem a_throwing_handler_ends_the_commit:
  "map_of (mutations (failing_store True)) ''boom'' =
     Some [(''fail'', \<lparr>local_namespace = '''', local_path = []\<rparr>),
           (''incC'', \<lparr>local_namespace = '''', local_path = [''c'']\<rparr>)]
   \<and> subscribers (failing_store True) = [''watch'']
   \<and> calls (failing_store True) = []
   \<and> fst (commit example_env (String ''boom'') (Number ''1'') Undefined (failing_store True))
       = Inl (String ''mutation failed'')
   \<and> map (\<lambda>(c, w). (callee c, w))
       (calls (snd (commit example_env (String ''boom'') (Number ''1'') Undefined (failing_store True))))
       = [(''fail'', True)]"
  by code_simp

section \<open>The local context\<close>

lemma context_at_Nil [simp]: "context_at root [] = mcontext root"
  by (simp add: context_at_def get_def)

lemma context_at_Cons:
  "context_at root (k # p) = (case getChild root k of None \<Rightarrow> None | Some c \<Rightarrow> context_at c p)"
  by (cases p) (simp_all add: context_at_def get_def split: option.splits)

lemma getChild_update:
  "getChild (Module r rt st cx (AList.update k c cs)) k' = (if k' = k then Some c else map_of cs k')"
  by (simp add: getChild_def update_conv')

lemma modify_at_context_above:
  "length q < length p \<Longrightarrow> context_at (modify_at p f root) q = context_at root q"
proof (induction p arbitrary: q root)
  case Nil
  then show ?case by simp
next
  case (Cons k ks)
  show ?case
  proof (cases "getChild root k")
    case None
    then show ?thesis by simp
  next
    case (Some c)
    show ?thesis
    proof (cases q)
      case Nil
      with Some show ?thesis by simp
    next
      case q: (Cons k' qs)
      with Cons.prems have "length qs < length ks" by simp
      from Cons.IH [OF this, of c] Some q show ?thesis
        by (simp add: context_at_Cons getChild_update) (simp add: getChild_def)
    qed
  qed
qed

lemma modify_at_sets_context:
  "getNamespace_from root ns0 p = Inr ns \<Longrightarrow>
   context_at (modify_at p (set_context l) root) p = Some l"
proof (induction p arbitrary: root ns0)
  case Nil
  then show ?case by (simp add: set_context_def)
next
  case (Cons k ks)
  from Cons.prems obtain c where c: "getChild root k = Some c"
    and "getNamespace_from c (ns0 @ (if namespaced c then k @ ''/'' else '''')) ks = Inr ns"
    by (auto split: option.splits)
  from Cons.IH [OF this(2)] c show ?case
    by (simp add: context_at_Cons getChild_update)
qed

lemma installModule_register_modules:
  "modules (installModule_register s ns p m)
     = modify_at p (set_context (makeLocalContext ns p)) (modules s)"
proof -
  have r: "modules (foldl f t xs) = modules t" if "\<And>t x. modules (f t x) = modules t"
    for f :: "store \<Rightarrow> 'a \<Rightarrow> store" and t xs
    using that by (rule foldl_preserves)
  show ?thesis
    unfolding installModule_register_def Let_def
    by (subst r, simp add: split_def registerGetter_def console_log_def,
        subst r, simp add: split_def registerAction_def,
        subst r, simp add: split_def registerMutation_def,
        simp)
qed

lemma installModule_context_above:
  "length q < length p \<Longrightarrow>
   context_at (modules (fst (snd (installModule s rs p m hot)))) q = context_at (modules s) q"
  "length q \<le> length p \<Longrightarrow>
   context_at (modules (fst (snd (installModule_children s rs p ms hot)))) q = context_at (modules s) q"
proof (induction s rs p m hot and s rs p ms hot rule: installModule_installModule_children.induct)
  case (1 s rootState path m hot)
  show ?case
  proof (cases "getNamespace (modules s) path")
    case (Inl e)
    then show ?thesis by simp
  next
    case (Inr ns)
    define pre where "pre =
      (if path \<noteq> [] \<and> \<not> hot
       then installModule_state (installModule_namespace s ns path m) rootState path m
       else (Inr rootState, installModule_namespace s ns path m))"
    have p: "modules (snd pre) = modules s"
      by (simp add: pre_def)
    obtain r s1 where pre: "pre = (r, s1)" by (cases pre)
    show ?thesis
    proof (cases r)
      case (Inl e)
      with Inr pre p show ?thesis by (simp add: pre_def [symmetric])
    next
      case r: (Inr rs1)
      from "1.prems" have le: "length q \<le> length path" by simp
      have "context_at (modules (fst (snd (installModule_children (installModule_register s1 ns path m)
                                           rs1 path (children m) hot)))) q
              = context_at (modules (installModule_register s1 ns path m)) q"
        by (rule "1.IH" [OF Inr pre [symmetric, unfolded pre_def] r le])
      also have "\<dots> = context_at (modules s1) q"
        using "1.prems" by (simp add: installModule_register_modules modify_at_context_above)
      finally show ?thesis using p pre Inr r by (simp add: pre_def [symmetric])
    qed
  qed
next
  case (2 s rootState path hot)
  then show ?case by simp
next
  case (3 s rootState path key child rest hot)
  obtain r s1 rs1 where i: "installModule s rootState (path @ [key]) child hot = (r, s1, rs1)"
    by (cases "installModule s rootState (path @ [key]) child hot")
  from "3.prems" have lt: "length q < length (path @ [key])" by simp
  from "3.IH"(1) [OF lt] i have a: "context_at (modules s1) q = context_at (modules s) q" by simp
  show ?case
  proof (cases r)
    case (Inl e)
    with i a show ?thesis by simp
  next
    case (Inr u)
    have "context_at (modules (fst (snd (installModule_children s1 rs1 path rest hot)))) q
            = context_at (modules s1) q"
      by (rule "3.IH"(2) [OF i [symmetric] Inr refl "3.prems"])
    with a i Inr show ?thesis by simp
  qed
qed

lemma installModule_sets_context:
  assumes ns: "getNamespace (modules s) p = Inr ns"
    and installed: "fst (installModule s rs p m hot) = Inr u"
  shows "context_at (modules (fst (snd (installModule s rs p m hot)))) p
           = Some (makeLocalContext ns p)"
proof -
  define pre where "pre =
      (if p \<noteq> [] \<and> \<not> hot
       then installModule_state (installModule_namespace s ns p m) rs p m
       else (Inr rs, installModule_namespace s ns p m))"
  have md: "modules (snd pre) = modules s" by (simp add: pre_def)
  obtain r s1 where pre: "pre = (r, s1)" by (cases pre)
  with installed ns obtain rs1 where r: "r = Inr rs1"
    by (cases r) (simp_all add: pre_def [symmetric])
  from md pre have m1: "modules s1 = modules s" by simp
  have i: "installModule s rs p m hot
             = installModule_children (installModule_register s1 ns p m) rs1 p (children m) hot"
    using ns pre r by (simp add: pre_def [symmetric])
  have "context_at (modules (fst (snd (installModule s rs p m hot)))) p
          = context_at (modules (installModule_register s1 ns p m)) p"
    unfolding i by (rule installModule_context_above(2)) simp
  also have "\<dots> = Some (makeLocalContext ns p)"
    using ns unfolding installModule_register_modules m1 getNamespace_def
    by (rule modify_at_sets_context)
  finally show ?thesis .
qed

lemma has_handler_push: "has_handler (push_entry type h registry) type h"
  by (simp add: has_handler_def push_entry_def update_conv')

lemma has_handler_push_mono:
  "has_handler registry type h \<Longrightarrow> has_handler (push_entry type' h' registry) type h"
  by (auto simp: has_handler_def push_entry_def update_conv' split: option.splits)

lemma foldl_keeps:
  "(\<And>t y. P t \<Longrightarrow> P (f t y)) \<Longrightarrow> P s \<Longrightarrow> P (foldl f s xs)"
  by (induction xs arbitrary: s) auto

lemma foldl_establishes:
  assumes "\<And>t y. P t \<Longrightarrow> P (f t y)" and "\<And>t. P (f t x)" and "x \<in> set xs"
  shows "P (foldl f s xs)"
  using assms(3)
proof (induction xs arbitrary: s)
  case Nil
  then show ?case by simp
next
  case (Cons y ys)
  show ?case
  proof (cases "x \<in> set ys")
    case True
    then show ?thesis using Cons.IH by simp
  next
    case False
    with Cons.prems have "y = x" by simp
    then have "P (f s y)" using assms(2) by simp
    then have "P (foldl f (f s y) ys)" by (rule foldl_keeps [rotated]) (rule assms(1))
    then show ?thesis by simp
  qed
qed

lemma installModule_register_keeps_mutations:
  assumes "has_handler (mutations s) type h"
  shows "has_handler (mutations (installModule_register s ns p m)) type h"
proof -
  let ?P = "\<lambda>t. has_handler (mutations t) type h"
  let ?l = "makeLocalContext ns p"
  let ?s1 = "s\<lparr>modules := modify_at p (set_context ?l) (modules s)\<rparr>"
  let ?s2 = "foldl (\<lambda>t (key, mutation). registerMutation t (ns @ key) mutation ?l)
                 ?s1 (rmutations (raw m))"
  let ?s3 = "foldl (\<lambda>t (key, action).
                        registerAction t (if action_root action then key else ns @ key)
                          (action_handler action) ?l)
                 ?s2 (ractions (raw m))"
  have "?P ?s1" using assms by simp
  then have "?P ?s2"
    by (rule foldl_keeps [where P = ?P, rotated])
       (simp add: split_def registerMutation_def has_handler_push_mono)
  then have "?P ?s3"
    by (rule foldl_keeps [where P = ?P, rotated]) (simp add: split_def registerAction_def)
  then have "?P (foldl (\<lambda>t (key, getter). registerGetter t (ns @ key) getter ?l)
                   ?s3 (rgetters (raw m)))"
    by (rule foldl_keeps [where P = ?P, rotated])
       (simp add: split_def registerGetter_def console_log_def)
  then show ?thesis unfolding installModule_register_def Let_def .
qed

lemma installModule_register_keeps_actions:
  assumes "has_handler (actions s) type h"
  shows "has_handler (actions (installModule_register s ns p m)) type h"
proof -
  let ?P = "\<lambda>t. has_handler (actions t) type h"
  let ?l = "makeLocalContext ns p"
  let ?s1 = "s\<lparr>modules := modify_at p (set_context ?l) (modules s)\<rparr>"
  let ?s2 = "foldl (\<lambda>t (key, mutation). registerMutation t (ns @ key) mutation ?l)
                 ?s1 (rmutations (raw m))"
  let ?s3 = "foldl (\<lambda>t (key, action).
                        registerAction t (if action_root action then key else ns @ key)
                          (action_handler action) ?l)
                 ?s2 (ractions (raw m))"
  have "?P ?s1" using assms by simp
  then have "?P ?s2"
    by (rule foldl_keeps [where P = ?P, rotated]) (simp add: split_def registerMutation_def)
  then have "?P ?s3"
    by (rule foldl_keeps [where P = ?P, rotated])
       (simp add: split_def registerAction_def has_handler_push_mono)
  then have "?P (foldl (\<lambda>t (key, getter). registerGetter t (ns @ key) getter ?l)
                   ?s3 (rgetters (raw m)))"
    by (rule foldl_keeps [where P = ?P, rotated])
       (simp add: split_def registerGetter_def console_log_def)
  then show ?thesis unfolding installModule_register_def Let_def .
qed

lemma installModule_register_mutations:
  assumes "(key, f) \<in> set (rmutations (raw m))"
  shows "has_handler (mutations (installModule_register s ns p m)) (ns @ key)
           (f, makeLocalContext ns p)"
proof -
  let ?P = "\<lambda>t. has_handler (mutations t) (ns @ key) (f, makeLocalContext ns p)"
  let ?l = "makeLocalContext ns p"
  let ?s1 = "s\<lparr>modules := modify_at p (set_context ?l) (modules s)\<rparr>"
  let ?s2 = "foldl (\<lambda>t (key, mutation). registerMutation t (ns @ key) mutation ?l)
                 ?s1 (rmutations (raw m))"
  let ?s3 = "foldl (\<lambda>t (key, action).
                        registerAction t (if action_root action then key else ns @ key)
                          (action_handler action) ?l)
                 ?s2 (ractions (raw m))"
  have "?P ?s2"
    by (rule foldl_establishes [where P = ?P and x = "(key, f)"])
       (simp_all add: split_def registerMutation_def has_handler_push_mono has_handler_push assms)
  then have "?P ?s3"
    by (rule foldl_keeps [where P = ?P, rotated]) (simp add: split_def registerAction_def)
  then have "?P (foldl (\<lambda>t (key, getter). registerGetter t (ns @ key) getter ?l)
                   ?s3 (rgetters (raw m)))"
    by (rule foldl_keeps [where P = ?P, rotated])
       (simp add: split_def registerGetter_def console_log_def)
  then show ?thesis unfolding installModule_register_def Let_def .
qed

lemma installModule_register_actions:
  assumes "(key, action) \<in> set (ractions (raw m))"
  shows "has_handler (actions (installModule_register s ns p m))
           (if action_root action then key else ns @ key)
           (action_handler action, makeLocalContext ns p)"
proof -
  define ty where "ty = (if action_root action then key else ns @ key)"
  let ?P = "\<lambda>t. has_handler (actions t) ty (action_handler action, makeLocalContext ns p)"
  let ?l = "makeLocalContext ns p"
  let ?s1 = "s\<lparr>modules := modify_at p (set_context ?l) (modules s)\<rparr>"
  let ?s2 = "foldl (\<lambda>t (key, mutation). registerMutation t (ns @ key) mutation ?l)
                 ?s1 (rmutations (raw m))"
  let ?s3 = "foldl (\<lambda>t (key, action).
                        registerAction t (if action_root action then key else ns @ key)
                          (action_handler action) ?l)
                 ?s2 (ractions (raw m))"
  have "?P ?s3"
  proof (rule foldl_establishes [where P = ?P and x = "(key, action)"])
    show "?P (case y of (key, action) \<Rightarrow>
                registerAction t (if action_root action then key else ns @ key)
                  (action_handler action) ?l)" if "?P t" for t y
      using that by (simp add: split_def registerAction_def has_handler_push_mono)
    show "?P (case (key, action) of (key, action) \<Rightarrow>
                registerAction t (if action_root action then key else ns @ key)
                  (action_handler action) ?l)" for t
      by (simp add: registerAction_def ty_def has_handler_push)
    show "(key, action) \<in> set (ractions (raw m))" by (rule assms)
  qed
  then have "?P (foldl (\<lambda>t (key, getter). registerGetter t (ns @ key) getter ?l)
                   ?s3 (rgetters (raw m)))"
    by (rule foldl_keeps [where P = ?P, rotated])
       (simp add: split_def registerGetter_def console_log_def)
  then show ?thesis unfolding installModule_register_def Let_def ty_def .
qed

lemma installModule_namespace_registries [simp]:
  "mutations (installModule_namespace s ns p m) = mutations s"
  "actions (installModule_namespace s ns p m) = actions s"
  by (simp_all add: installModule_namespace_def console_log_def)

lemma installModule_state_registries [simp]:
  "mutations (snd (installModule_state s rs p m)) = mutations s"
  "actions (snd (installModule_state s rs p m)) = actions s"
  by (auto simp: installModule_state_def withCommit_def Let_def console_log_def
           split: sum.splits prod.splits)

lemma installModule_keeps:
  "(has_handler (mutations s) type h \<longrightarrow>
      has_handler (mutations (fst (snd (installModule s rs p m hot)))) type h)
   \<and> (has_handler (actions s) type' h' \<longrightarrow>
      has_handler (actions (fst (snd (installModule s rs p m hot)))) type' h')"
  "(has_handler (mutations s) type h \<longrightarrow>
      has_handler (mutations (fst (snd (installModule_children s rs p ms hot)))) type h)
   \<and> (has_handler (actions s) type' h' \<longrightarrow>
      has_handler (actions (fst (snd (installModule_children s rs p ms hot)))) type' h')"
proof (induction s rs p m hot and s rs p ms hot rule: installModule_installModule_children.induct)
  case (1 s rootState path m hot)
  show ?case
  proof (cases "getNamespace (modules s) path")
    case (Inl e)
    then show ?thesis by simp
  next
    case (Inr ns)
    define pre where "pre =
      (if path \<noteq> [] \<and> \<not> hot
       then installModule_state (installModule_namespace s ns path m) rootState path m
       else (Inr rootState, installModule_namespace s ns path m))"
    have p: "mutations (snd pre) = mutations s" "actions (snd pre) = actions s"
      by (simp_all add: pre_def)
    obtain r s1 where pre: "pre = (r, s1)" by (cases pre)
    show ?thesis
    proof (cases r)
      case (Inl e)
      with Inr pre p show ?thesis by (simp add: pre_def [symmetric])
    next
      case r: (Inr rs1)
      note ih = "1.IH" [OF Inr pre [symmetric, unfolded pre_def] r]
      from p pre have "mutations s1 = mutations s" "actions s1 = actions s" by simp_all
      with ih installModule_register_keeps_mutations [of s1 type h ns path m]
        installModule_register_keeps_actions [of s1 type' h' ns path m]
      have "(has_handler (mutations s) type h \<longrightarrow>
               has_handler (mutations (fst (snd (installModule_children
                  (installModule_register s1 ns path m) rs1 path (children m) hot)))) type h)
          \<and> (has_handler (actions s) type' h' \<longrightarrow>
               has_handler (actions (fst (snd (installModule_children
                  (installModule_register s1 ns path m) rs1 path (children m) hot)))) type' h')"
        by simp
      with Inr pre r show ?thesis by (simp add: pre_def [symmetric])
    qed
  qed
next
  case (2 s rootState path hot)
  then show ?case by simp
next
  case (3 s rootState path key child rest hot)
  obtain r s1 rs1 where i: "installModule s rootState (path @ [key]) child hot = (r, s1, rs1)"
    by (cases "installModule s rootState (path @ [key]) child hot")
  from "3.IH"(1) i have a:
    "(has_handler (mutations s) type h \<longrightarrow> has_handler (mutations s1) type h)
     \<and> (has_handler (actions s) type' h' \<longrightarrow> has_handler (actions s1) type' h')" by simp
  show ?case
  proof (cases r)
    case (Inl e)
    with i a show ?thesis by simp
  next
    case (Inr u)
    note ih = "3.IH"(2) [OF i [symmetric] Inr refl]
    with a i Inr show ?thesis by simp
  qed
qed

lemma installModule_registers:
  assumes ns: "getNamespace (modules s) p = Inr ns"
    and installed: "fst (installModule s rs p m hot) = Inr u"
  shows "(key, f) \<in> set (rmutations (raw m)) \<Longrightarrow>
           has_handler (mutations (fst (snd (installModule s rs p m hot)))) (ns @ key)
             (f, makeLocalContext ns p)"
    and "(key, action) \<in> set (ractions (raw m)) \<Longrightarrow>
           has_handler (actions (fst (snd (installModule s rs p m hot))))
             (if action_root action then key else ns @ key)
             (action_handler action, makeLocalContext ns p)"
proof -
  define pre where "pre =
      (if p \<noteq> [] \<and> \<not> hot
       then installModule_state (installModule_namespace s ns p m) rs p m
       else (Inr rs, installModule_namespace s ns p m))"
  obtain r s1 where pre: "pre = (r, s1)" by (cases pre)
  with installed ns obtain rs1 where r: "r = Inr rs1"
    by (cases r) (simp_all add: pre_def [symmetric])
  have i: "installModule s rs p m hot
             = installModule_children (installModule_register s1 ns p m) rs1 p (children m) hot"
    using ns pre r by (simp add: pre_def [symmetric])
  show "has_handler (mutations (fst (snd (installModule s rs p m hot)))) (ns @ key)
          (f, makeLocalContext ns p)"
    if "(key, f) \<in> set (rmutations (raw m))"
    unfolding i
    using installModule_keeps(2) [THEN conjunct1, rule_format,
            OF installModule_register_mutations [OF that]] .
  show "has_handler (actions (fst (snd (installModule s rs p m hot))))
          (if action_root action then key else ns @ key)
          (action_handler action, makeLocalContext ns p)"
    if "(key, action) \<in> set (ractions (raw m))"
    unfolding i
    using installModule_keeps(2) [THEN conjunct2, rule_format,
            OF installModule_register_actions [OF that]] .
qed

text \<open>
  C5. A module that \<open>installModule\<close> has installed at a path whose namespace is
  \<open>ns\<close> has as its \<open>context\<close> the local context made of this namespace and path,
  and each of its mutation and action handlers is in the registry with that context,
  under the key with the namespace before it (an action declared with \<open>root\<close> under
  its own key). For the \<open>dispatch\<close> and \<open>commit\<close> of that context, let the first
  argument name the type, as the name itself (with the payload and perhaps the options
  after it) or as an object that carries it (with the options after it); then the
  payload is the second argument or the object, and the options are the third argument
  or the second. Without a namespace, the local \<open>dispatch\<close> and \<open>commit\<close> are the
  store's own, on the arguments as given. With a namespace: when \<open>options.root\<close> is
  set they call the store's \<open>dispatch\<close> and \<open>commit\<close> with the type as it is;
  otherwise with the namespace put before the type, unless, in a development build,
  that name has no entry in the registry: then they write an error to the console,
  return \<open>undefined\<close> and call nothing.
\<close>

theorem local_context_delegates:
  assumes names: "names_type a type"
  shows
   "(getNamespace (modules s0) path = Inr ns \<and> fst (installModule s0 rootState path m hot) = Inr u \<longrightarrow>
       context_at (modules (fst (snd (installModule s0 rootState path m hot)))) path
         = Some (makeLocalContext ns path)
     \<and> (\<forall>key f. (key, f) \<in> set (rmutations (raw m)) \<longrightarrow>
          has_handler (mutations (fst (snd (installModule s0 rootState path m hot)))) (ns @ key)
            (f, makeLocalContext ns path))
     \<and> (\<forall>key action. (key, action) \<in> set (ractions (raw m)) \<longrightarrow>
          has_handler (actions (fst (snd (installModule s0 rootState path m hot))))
            (if action_root action then key else ns @ key)
            (action_handler action, makeLocalContext ns path)))
  \<and> (ns = '''' \<longrightarrow>
       local_dispatch env (makeLocalContext ns path) a b c s = dispatch env a b s
     \<and> local_commit env (makeLocalContext ns path) a b c s = commit env a b c s)
  \<and> (ns \<noteq> '''' \<and> option_set (if isObject a then b else c) ''root'' \<longrightarrow>
       local_dispatch env (makeLocalContext ns path) a b c s
         = dispatch env (String type) (if isObject a then a else b) s
     \<and> local_commit env (makeLocalContext ns path) a b c s =
         commit env (String type) (if isObject a then a else b) (if isObject a then b else c) s)
  \<and> (ns \<noteq> '''' \<and> \<not> option_set (if isObject a then b else c) ''root''
       \<and> (DEV s \<longrightarrow> map_of (actions s) (ns @ type) \<noteq> None) \<longrightarrow>
       local_dispatch env (makeLocalContext ns path) a b c s =
         dispatch env (String (ns @ type)) (if isObject a then a else b) s)
  \<and> (ns \<noteq> '''' \<and> \<not> option_set (if isObject a then b else c) ''root''
       \<and> (DEV s \<longrightarrow> map_of (mutations s) (ns @ type) \<noteq> None) \<longrightarrow>
       local_commit env (makeLocalContext ns path) a b c s =
         commit env (String (ns @ type)) (if isObject a then a else b)
           (if isObject a then b else c) s)
  \<and> (ns \<noteq> '''' \<and> \<not> option_set (if isObject a then b else c) ''root''
       \<and> DEV s \<and> map_of (actions s) (ns @ type) = None \<longrightarrow>
       local_dispatch env (makeLocalContext ns path) a b c s =
         (Inr (Plain Undefined),
          console_log [ConsoleError (''[vuex] unknown local action type: '' @ type @
                         '', global type: '' @ ns @ type)] s))
  \<and> (ns \<noteq> '''' \<and> \<not> option_set (if isObject a then b else c) ''root''
       \<and> DEV s \<and> map_of (mutations s) (ns @ type) = None \<longrightarrow>
       local_commit env (makeLocalContext ns path) a b c s =
         (Inr (Plain Undefined),
          console_log [ConsoleError (''[vuex] unknown local mutation type: '' @ type @
                         '', global type: '' @ ns @ type)] s))"
proof -
  have u: "unifyObjectStyle dev a b c =
             Inr (String type, if isObject a then a else b, if isObject a then b else c)" for dev
    using names by (rule unifyObjectStyle_names_type)
  have installed:
    "context_at (modules (fst (snd (installModule s0 rootState path m hot)))) path
         = Some (makeLocalContext ns path)
     \<and> (\<forall>key f. (key, f) \<in> set (rmutations (raw m)) \<longrightarrow>
          has_handler (mutations (fst (snd (installModule s0 rootState path m hot)))) (ns @ key)
            (f, makeLocalContext ns path))
     \<and> (\<forall>key action. (key, action) \<in> set (ractions (raw m)) \<longrightarrow>
          has_handler (actions (fst (snd (installModule s0 rootState path m hot))))
            (if action_root action then key else ns @ key)
            (action_handler action, makeLocalContext ns path))"
    if h: "getNamespace (modules s0) path = Inr ns \<and> fst (installModule s0 rootState path m hot) = Inr u"
  proof (intro conjI allI impI)
    from h have ns: "getNamespace (modules s0) path = Inr ns" by (rule conjunct1)
    from h have i: "fst (installModule s0 rootState path m hot) = Inr u" by (rule conjunct2)
    show "context_at (modules (fst (snd (installModule s0 rootState path m hot)))) path
            = Some (makeLocalContext ns path)"
      using ns i by (rule installModule_sets_context)
    show "has_handler (mutations (fst (snd (installModule s0 rootState path m hot)))) (ns @ key)
            (f, makeLocalContext ns path)"
      if "(key, f) \<in> set (rmutations (raw m))" for key f
      using ns i that by (rule installModule_registers(1))
    show "has_handler (actions (fst (snd (installModule s0 rootState path m hot))))
            (if action_root action then key else ns @ key)
            (action_handler action, makeLocalContext ns path)"
      if "(key, action) \<in> set (ractions (raw m))" for key action
      using ns i that by (rule installModule_registers(2))
  qed
  have delegates:
   "(ns = '''' \<longrightarrow>
       local_dispatch env (makeLocalContext ns path) a b c s = dispatch env a b s
     \<and> local_commit env (makeLocalContext ns path) a b c s = commit env a b c s)
  \<and> (ns \<noteq> '''' \<and> option_set (if isObject a then b else c) ''root'' \<longrightarrow>
       local_dispatch env (makeLocalContext ns path) a b c s
         = dispatch env (String type) (if isObject a then a else b) s
     \<and> local_commit env (makeLocalContext ns path) a b c s =
         commit env (String type) (if isObject a then a else b) (if isObject a then b else c) s)
  \<and> (ns \<noteq> '''' \<and> \<not> option_set (if isObject a then b else c) ''root''
       \<and> (DEV s \<longrightarrow> map_of (actions s) (ns @ type) \<noteq> None) \<longrightarrow>
       local_dispatch env (makeLocalContext ns path) a b c s =
         dispatch env (String (ns @ type)) (if isObject a then a else b) s)
  \<and> (ns \<noteq> '''' \<and> \<not> option_set (if isObject a then b else c) ''root''
       \<and> (DEV s \<longrightarrow> map_of (mutations s) (ns @ type) \<noteq> None) \<longrightarrow>
       local_commit env (makeLocalContext ns path) a b c s =
         commit env (String (ns @ type)) (if isObject a then a else b)
           (if isObject a then b else c) s)
  \<and> (ns \<noteq> '''' \<and> \<not> option_set (if isObject a then b else c) ''root''
       \<and> DEV s \<and> map_of (actions s) (ns @ type) = None \<longrightarrow>
       local_dispatch env (makeLocalContext ns path) a b c s =
         (Inr (Plain Undefined),
          console_log [ConsoleError (''[vuex] unknown local action type: '' @ type @
                         '', global type: '' @ ns @ type)] s))
  \<and> (ns \<noteq> '''' \<and> \<not> option_set (if isObject a then b else c) ''root''
       \<and> DEV s \<and> map_of (mutations s) (ns @ type) = None \<longrightarrow>
       local_commit env (makeLocalContext ns path) a b c s =
         (Inr (Plain Undefined),
          console_log [ConsoleError (''[vuex] unknown local mutation type: '' @ type @
                         '', global type: '' @ ns @ type)] s))"
    by (simp add: local_dispatch_def local_commit_def makeLocalContext_def u
          commit_returns_undefined Let_def)
  from installed delegates show ?thesis by blast
qed

text \<open>
  The module \<open>a\<close> of the example options, installed into a new store at its path,
  where the namespace is "a/"; the calls through its context are made on the example
  store, whose module \<open>a\<close> has the same context. The last call is through a context
  without a namespace.
\<close>

theorem local_context_delegates_witness:
  "getNamespace (modules (new_Store True example_modules False)) [''a''] = Inr ''a/''
   \<and> context_at (modules (new_Store True example_modules False)) [''a''] = None
   \<and> fst (installModule (new_Store True example_modules False) (Object [(''n'', Number ''0'')])
            [''a''] (module_at example_modules [''a'']) False) = Inr ()
   \<and> context_at
         (modules (fst (snd (installModule (new_Store True example_modules False)
                               (Object [(''n'', Number ''0'')]) [''a'']
                               (module_at example_modules [''a'']) False))))
         [''a'']
       = Some (makeLocalContext ''a/'' [''a''])
   \<and> has_handler
         (mutations (fst (snd (installModule (new_Store True example_modules False)
                                 (Object [(''n'', Number ''0'')]) [''a'']
                                 (module_at example_modules [''a'']) False))))
         ''a/inc'' (''incA'', makeLocalContext ''a/'' [''a''])
   \<and> has_handler
         (actions (fst (snd (installModule (new_Store True example_modules False)
                               (Object [(''n'', Number ''0'')]) [''a'']
                               (module_at example_modules [''a'']) False))))
         ''a/load'' (''slow'', makeLocalContext ''a/'' [''a''])
   \<and> context_at (modules (example_store True)) [''a''] = Some (makeLocalContext ''a/'' [''a''])
   \<and> map_of (actions (example_store True)) ''a/load'' \<noteq> None
   \<and> local_dispatch example_env (makeLocalContext ''a/'' [''a''])
         (String ''load'') (Number ''1'') Undefined (example_store True)
       = dispatch example_env (String ''a/load'') (Number ''1'') (example_store True)
   \<and> map_of (mutations (example_store True)) ''a/inc'' \<noteq> None
   \<and> local_commit example_env (makeLocalContext ''a/'' [''a''])
         (Object [(''type'', String ''inc''), (''by'', Number ''2'')]) Undefined Undefined
         (example_store True)
       = commit example_env (String ''a/inc'') (Object [(''type'', String ''inc''), (''by'', Number ''2'')])
           Undefined (example_store True)
   \<and> local_dispatch example_env (makeLocalContext ''a/'' [''a''])
         (String ''go'') (Number ''1'') (Object [(''root'', Boolean True)]) (example_store True)
       = dispatch example_env (String ''go'') (Number ''1'') (example_store True)
   \<and> DEV (example_store True)
   \<and> map_of (actions (example_store True)) ''a/go'' = None
   \<and> local_dispatch example_env (makeLocalContext ''a/'' [''a''])
         (String ''go'') (Number ''1'') Undefined (example_store True)
       = (Inr (Plain Undefined),
          console_log [ConsoleError ''[vuex] unknown local action type: go, global type: a/go'']
            (example_store True))
   \<and> map_of (mutations (example_store True)) ''a/go'' = None
   \<and> local_commit example_env (makeLocalContext ''a/'' [''a''])
         (String ''go'') (Number ''1'') Undefined (example_store True)
       = (Inr (Plain Undefined),
          console_log [ConsoleError ''[vuex] unknown local mutation type: go, global type: a/go'']
            (example_store True))
   \<and> local_commit example_env (makeLocalContext '''' [])
         (String ''inc'') (Number ''1'') Undefined (example_store True)
       = commit example_env (String ''inc'') (Number ''1'') Undefined (example_store True)"
proof -
  let ?l = "makeLocalContext ''a/'' [''a'']"
  let ?s = "example_store True"
  let ?fresh = "new_Store True example_modules False"
  let ?rs = "Object [(''n'', Number ''0'')]"
  let ?m = "module_at example_modules [''a'']"
  let ?i = "installModule ?fresh ?rs [''a''] ?m False"
  have ns: "getNamespace (modules ?fresh) [''a''] = Inr ''a/''" by code_simp
  have none: "context_at (modules ?fresh) [''a''] = None" by code_simp
  have inst: "fst ?i = Inr ()" by code_simp
  have mu: "(''inc'', ''incA'') \<in> set (rmutations (raw ?m))" by code_simp
  have ac: "(''load'', ActionFn ''slow'') \<in> set (ractions (raw ?m))" by code_simp
  have same: "context_at (modules ?s) [''a''] = Some ?l" by code_simp
  have load: "map_of (actions ?s) ''a/load'' \<noteq> None" by code_simp
  have inc: "map_of (mutations ?s) ''a/inc'' \<noteq> None" by code_simp
  have go: "map_of (actions ?s) ''a/go'' = None" by code_simp
  have go': "map_of (mutations ?s) ''a/go'' = None" by code_simp
  have dev: "DEV ?s" by code_simp
  have 1: "names_type (String ''load'') ''load''" by simp
  have 2: "names_type (Object [(''type'', String ''inc''), (''by'', Number ''2'')]) ''inc''" by simp
  have 3: "names_type (String ''go'') ''go''" by simp
  have 4: "names_type (String ''inc'') ''inc''" by simp
  note installed = local_context_delegates
    [OF 1, of ?fresh "[''a'']" "''a/''" ?rs ?m False "()" example_env "Number ''1''" Undefined ?s,
     THEN conjunct1, rule_format, OF conjI [OF ns inst]]
  note a = local_context_delegates
    [OF 1, of ?fresh "[''a'']" "''a/''" ?rs ?m False "()" example_env "Number ''1''" Undefined ?s,
     THEN conjunct2]
  note b = local_context_delegates
    [OF 2, of ?fresh "[''a'']" "''a/''" ?rs ?m False "()" example_env Undefined Undefined ?s,
     THEN conjunct2]
  note c = local_context_delegates
    [OF 3, of ?fresh "[''a'']" "''a/''" ?rs ?m False "()" example_env "Number ''1''"
       "Object [(''root'', Boolean True)]" ?s,
     THEN conjunct2]
  note d = local_context_delegates
    [OF 3, of ?fresh "[''a'']" "''a/''" ?rs ?m False "()" example_env "Number ''1''" Undefined ?s,
     THEN conjunct2]
  note e = local_context_delegates
    [OF 4, of ?fresh "[]" "''''" ?rs ?m False "()" example_env "Number ''1''" Undefined ?s,
     THEN conjunct2]
  from installed have cx: "context_at (modules (fst (snd ?i))) [''a''] = Some ?l"
    by (rule conjunct1)
  from installed [THEN conjunct2, THEN conjunct1, rule_format, OF mu]
  have hm: "has_handler (mutations (fst (snd ?i))) ''a/inc'' (''incA'', ?l)"
    by (simp del: installModule.simps)
  from installed [THEN conjunct2, THEN conjunct2, rule_format, OF ac]
  have ha: "has_handler (actions (fst (snd ?i))) ''a/load'' (''slow'', ?l)"
    by (simp add: action_root_def action_handler_def del: installModule.simps)
  from a load have i: "local_dispatch example_env ?l (String ''load'') (Number ''1'') Undefined ?s
       = dispatch example_env (String ''a/load'') (Number ''1'') ?s"
    by (simp add: option_set_def member_def)
  from b inc have ii: "local_commit example_env ?l
         (Object [(''type'', String ''inc''), (''by'', Number ''2'')]) Undefined Undefined ?s
       = commit example_env (String ''a/inc'') (Object [(''type'', String ''inc''), (''by'', Number ''2'')])
           Undefined ?s"
    by (simp add: option_set_def member_def)
  from c have iii: "local_dispatch example_env ?l
         (String ''go'') (Number ''1'') (Object [(''root'', Boolean True)]) ?s
       = dispatch example_env (String ''go'') (Number ''1'') ?s"
    by (simp add: option_set_def member_def)
  from d dev go have iv: "local_dispatch example_env ?l (String ''go'') (Number ''1'') Undefined ?s
       = (Inr (Plain Undefined),
          console_log [ConsoleError ''[vuex] unknown local action type: go, global type: a/go''] ?s)"
    by (simp add: option_set_def member_def)
  from d dev go' have iv': "local_commit example_env ?l (String ''go'') (Number ''1'') Undefined ?s
       = (Inr (Plain Undefined),
          console_log [ConsoleError ''[vuex] unknown local mutation type: go, global type: a/go''] ?s)"
    by (simp add: option_set_def member_def)
  from e have v: "local_commit example_env (makeLocalContext '''' [])
         (String ''inc'') (Number ''1'') Undefined ?s
       = commit example_env (String ''inc'') (Number ''1'') Undefined ?s"
    by simp
  from ns none inst cx hm ha same load i inc ii iii dev go iv go' iv' v show ?thesis
    by (intro conjI)
qed

section \<open>Action subscribers that throw\<close>

text \<open>
  C6, as amended. Let the subscribers \<open>pre\<close> of a phase return and the next one,
  \<open>f\<close>, throw \<open>e\<close>. The one \<open>catch\<close> around the phase takes the error: the phase
  ends there, with a warning and the error on the console in a development build and
  nothing on it in a production build, and the subscribers \<open>post\<close> that follow
  \<open>f\<close> are not called (the record of calls ends with the call to \<open>f\<close>). The
  dispatch itself goes on: after the phase before the handlers, the handlers run and
  \<open>dispatch\<close> returns its promise; the callbacks that run the phases after the
  handlers have settled end as the phase does, before \<open>resolve\<close> and \<open>reject\<close>.
\<close>

theorem subscriber_error_ends_its_phase:
  assumes pre: "forEach_actionSubscribers env pre action err s = (Inr (), s1)"
    and f: "forEach_actionSubscribers env [f] action err s1 = (Inl e, s2)"
  shows
   "try_subscribers phase env (pre @ f # post) action err s =
      (if DEV s2
       then console_log [ConsoleWarn (''[vuex] error in '' @ phase @ '' action subscribers: ''),
                         ConsoleErrorValue e] s2
       else s2)
  \<and> calls (try_subscribers phase env (pre @ f # post) action err s) = calls s2
  \<and> (err = None \<and> List.map_filter sub_before (actionSubscribers s) = pre @ f # post
       \<and> names_type a type
       \<and> action = Object [(''type'', String type), (''payload'', if isObject a then a else b)]
       \<and> map_of (actions s) type = Some entry \<and> entry \<noteq> []
       \<and> map_handlers env entry (if isObject a then a else b)
            (if DEV s2
             then console_log [ConsoleWarn ''[vuex] error in before action subscribers: '',
                               ConsoleErrorValue e] s2
             else s2) = (Inr ps, s3)
     \<longrightarrow> dispatch env a b s =
           (Inr (Awaitable (NewPromise (if length entry > 1 then PromiseAll ps else hd ps))), s3))
  \<and> (err = None \<and> List.map_filter sub_after (actionSubscribers s) = pre @ f # post
     \<longrightarrow> dispatch_fulfilled env action s =
           (if DEV s2
            then console_log [ConsoleWarn ''[vuex] error in after action subscribers: '',
                              ConsoleErrorValue e] s2
            else s2))
  \<and> (err = Some x \<and> List.map_filter sub_error (actionSubscribers s) = pre @ f # post
     \<longrightarrow> dispatch_rejected env action x s =
           (if DEV s2
            then console_log [ConsoleWarn ''[vuex] error in error action subscribers: '',
                              ConsoleErrorValue e] s2
            else s2))"
proof (intro conjI impI)
  show t: "try_subscribers phase env (pre @ f # post) action err s =
      (if DEV s2
       then console_log [ConsoleWarn (''[vuex] error in '' @ phase @ '' action subscribers: ''),
                         ConsoleErrorValue e] s2
       else s2)" for phase
    using pre f by (rule try_subscribers_throws)
  show "calls (try_subscribers phase env (pre @ f # post) action err s) = calls s2"
    by (simp add: t)
  show "dispatch_fulfilled env action s =
           (if DEV s2
            then console_log [ConsoleWarn ''[vuex] error in after action subscribers: '',
                              ConsoleErrorValue e] s2
            else s2)"
    if "err = None \<and> List.map_filter sub_after (actionSubscribers s) = pre @ f # post"
    using that t [of "''after''"] by (simp add: dispatch_fulfilled_def)
  show "dispatch_rejected env action x s =
           (if DEV s2
            then console_log [ConsoleWarn ''[vuex] error in error action subscribers: '',
                              ConsoleErrorValue e] s2
            else s2)"
    if "err = Some x \<and> List.map_filter sub_error (actionSubscribers s) = pre @ f # post"
    using that t [of "''error''"] by (simp add: dispatch_rejected_def)
  show "dispatch env a b s =
           (Inr (Awaitable (NewPromise (if length entry > 1 then PromiseAll ps else hd ps))), s3)"
    if h: "err = None \<and> List.map_filter sub_before (actionSubscribers s) = pre @ f # post
       \<and> names_type a type
       \<and> action = Object [(''type'', String type), (''payload'', if isObject a then a else b)]
       \<and> map_of (actions s) type = Some entry \<and> entry \<noteq> []
       \<and> map_handlers env entry (if isObject a then a else b)
            (if DEV s2
             then console_log [ConsoleWarn ''[vuex] error in before action subscribers: '',
                               ConsoleErrorValue e] s2
             else s2) = (Inr ps, s3)"
  proof (rule dispatch_result)
    from h show "names_type a type" "map_of (actions s) type = Some entry" "entry \<noteq> []"
      by simp_all
    have t': "try_subscribers ''before'' env (List.map_filter sub_before (actionSubscribers s))
                (Object [(''type'', String type), (''payload'', if isObject a then a else b)])
                None s =
              (if DEV s2
               then console_log [ConsoleWarn ''[vuex] error in before action subscribers: '',
                                 ConsoleErrorValue e] s2
               else s2)"
      using t [of "''before''"] h [THEN conjunct1] h [THEN conjunct2, THEN conjunct1]
        h [THEN conjunct2, THEN conjunct2, THEN conjunct2, THEN conjunct1]
      by simp
    show "map_handlers env entry (if isObject a then a else b)
             (try_subscribers ''before'' env (List.map_filter sub_before (actionSubscribers s))
                (Object [(''type'', String type), (''payload'', if isObject a then a else b)])
                None s) = (Inr ps, s3)"
      unfolding t'
      by (rule h [THEN conjunct2, THEN conjunct2, THEN conjunct2, THEN conjunct2,
                  THEN conjunct2, THEN conjunct2])
  qed
qed

text \<open>In the development build of the example store with the subscribers \<open>bad\<close>
  and \<open>good\<close>: \<open>bad\<close> throws, \<open>good\<close> is not called, the console has the
  warning and the error, and \<open>dispatch\<close> returns its promise.\<close>

theorem subscriber_error_ends_its_phase_witness:
  "fst (forEach_actionSubscribers example_env [''bad'']
          (Object [(''type'', String ''go''), (''payload'', Number ''1'')]) None (subscribed_store True))
     = Inl (String ''subscriber failed'')
   \<and> List.map_filter sub_before (actionSubscribers (subscribed_store True)) = [''bad'', ''good'']
   \<and> map (\<lambda>(c, w). callee c)
         (calls (try_subscribers ''before'' example_env [''bad'', ''good'']
                   (Object [(''type'', String ''go''), (''payload'', Number ''1'')]) None
                   (subscribed_store True)))
       = [''bad'']
   \<and> console (try_subscribers ''before'' example_env [''bad'', ''good'']
                 (Object [(''type'', String ''go''), (''payload'', Number ''1'')]) None
                 (subscribed_store True))
       = [ConsoleWarn ''[vuex] error in before action subscribers: '',
          ConsoleErrorValue (String ''subscriber failed'')]
   \<and> fst (dispatch example_env (String ''go'') (Number ''1'') (subscribed_store True))
       = Inr (Awaitable (NewPromise (PromiseResolve (Number ''1''))))"
proof -
  let ?s = "subscribed_store True"
  let ?action = "Object [(''type'', String ''go''),
                         (''payload'', if isObject (String ''go'') then String ''go'' else Number ''1'')]"
  let ?s2 = "snd (forEach_actionSubscribers example_env [''bad''] ?action None ?s)"
  let ?logged = "if DEV ?s2
                 then console_log [ConsoleWarn ''[vuex] error in before action subscribers: '',
                                   ConsoleErrorValue (String ''subscriber failed'')] ?s2
                 else ?s2"
  let ?entry = "[(''go'', \<lparr>local_namespace = '''', local_path = []\<rparr>)]"
  let ?s3 = "snd (map_handlers example_env ?entry
                    (if isObject (String ''go'') then String ''go'' else Number ''1'') ?logged)"
  have pre: "forEach_actionSubscribers example_env [] ?action None ?s = (Inr (), ?s)" by simp
  have thrown: "fst (forEach_actionSubscribers example_env [''bad'']
          (Object [(''type'', String ''go''), (''payload'', Number ''1'')]) None ?s)
     = Inl (String ''subscriber failed'')" by code_simp
  then have f: "forEach_actionSubscribers example_env [''bad''] ?action None ?s
                  = (Inl (String ''subscriber failed''), ?s2)"
    by (simp add: prod_eq_iff)
  have subs: "List.map_filter sub_before (actionSubscribers ?s) = [''bad'', ''good'']" by code_simp
  have entry: "map_of (actions ?s) ''go'' = Some ?entry" by code_simp
  have "fst (map_handlers example_env ?entry
               (if isObject (String ''go'') then String ''go'' else Number ''1'') ?logged)
          = Inr [PromiseResolve (Number ''1'')]" by code_simp
  then have handlers: "map_handlers example_env ?entry
               (if isObject (String ''go'') then String ''go'' else Number ''1'') ?logged
          = (Inr [PromiseResolve (Number ''1'')], ?s3)"
    by (simp add: prod_eq_iff)
  have calls2: "map (\<lambda>(c, w). callee c) (calls ?s2) = [''bad'']" by code_simp
  have console2: "console ?s2 = []" "DEV ?s2" by code_simp+
  note t = subscriber_error_ends_its_phase [OF pre f,
      where phase = "''before''" and post = "[''good'']" and a = "String ''go''" and b = "Number ''1''"
        and type = "''go''" and entry = ?entry and ps = "[PromiseResolve (Number ''1'')]"
        and ?s3.0 = ?s3 and x = Undefined]
  from t [THEN conjunct1] console2
  have c: "console (try_subscribers ''before'' example_env [''bad'', ''good''] ?action None ?s)
       = [ConsoleWarn ''[vuex] error in before action subscribers: '',
          ConsoleErrorValue (String ''subscriber failed'')]"
    by simp
  from t [THEN conjunct2, THEN conjunct1] calls2
  have k: "map (\<lambda>(c, w). callee c)
         (calls (try_subscribers ''before'' example_env [''bad'', ''good''] ?action None ?s))
       = [''bad'']"
    by simp
  from t [THEN conjunct2, THEN conjunct2, THEN conjunct1] subs entry handlers
  have d: "fst (dispatch example_env (String ''go'') (Number ''1'') ?s)
       = Inr (Awaitable (NewPromise (PromiseResolve (Number ''1''))))"
    by simp
  from thrown subs k c d show ?thesis by simp
qed

text \<open>The claim as stated fails in the production build of the same store: the
  subscriber \<open>good\<close>, of the same phase as \<open>bad\<close>, is never called, and nothing
  is logged.\<close>

theorem before_subscribers_after_a_throw_are_skipped:
  "List.map_filter sub_before (actionSubscribers (subscribed_store False)) = [''bad'', ''good'']
   \<and> fst (dispatch example_env (String ''go'') (Number ''1'') (subscribed_store False))
       = Inr (Awaitable (NewPromise (PromiseResolve (Number ''1''))))
   \<and> map (\<lambda>(c, w). callee c)
         (calls (snd (dispatch example_env (String ''go'') (Number ''1'') (subscribed_store False))))
       = [''bad'', ''go'']
   \<and> console (snd (dispatch example_env (String ''go'') (Number ''1'') (subscribed_store False))) = []"
  by code_simp

section \<open>Dispatch\<close>

text \<open>
  C2, as amended. Let the handlers of the entry of a dispatched type return the
  awaitables \<open>ps\<close> (what a handler returns, made a promise when it is not one).
  Then \<open>dispatch\<close> returns a new promise, made around \<open>result\<close>. With one handler
  \<open>result\<close> is that handler's awaitable, and the promise returned is another
  promise, which settles as that awaitable does: with its value, not a list of one
  value, or with its error. With more than one handler the promise returned is
  fulfilled only when every handler's awaitable is, not before the last of them and
  with the list of their values; and when some handler's awaitable is rejected, it is
  rejected, with the error of a handler's awaitable that is rejected no later than
  any other, and carries nothing else.
\<close>

theorem dispatch_settles_as_its_handlers:
  assumes names: "names_type a type"
    and entry: "map_of (actions s) type = Some entry" "entry \<noteq> []"
    and handlers: "map_handlers env entry (if isObject a then a else b)
             (try_subscribers ''before'' env (List.map_filter sub_before (actionSubscribers s))
                (Object [(''type'', String type), (''payload'', if isObject a then a else b)])
                None s) = (Inr ps, s')"
  shows
   "(let returned = NewPromise (if length entry > 1 then PromiseAll ps else hd ps) in
       dispatch env a b s = (Inr (Awaitable returned), s')
     \<and> (length entry = 1 \<longrightarrow>
          ps = [hd ps] \<and> returned \<noteq> hd ps \<and> settlement returned = settlement (hd ps))
     \<and> (length entry > 1 \<longrightarrow>
          (\<forall>t v. settlement returned = Fulfilled t v \<longrightarrow>
             (\<exists>vs. v = Values vs \<and>
                   list_all2 (\<lambda>p x. \<exists>t'. settlement p = Fulfilled t' x \<and> t' \<le> t) ps vs))
        \<and> (\<forall>p t e. p \<in> set ps \<and> settlement p = Rejected t e \<longrightarrow>
             (\<exists>q t' e'. q \<in> set ps \<and> settlement q = Rejected t' e' \<and> t' \<le> t
                       \<and> settlement returned = Rejected t' e'))))"
proof -
  have d: "dispatch env a b s =
             (Inr (Awaitable (NewPromise (if length entry > 1 then PromiseAll ps else hd ps))), s')"
    using names entry handlers by (rule dispatch_result)
  have len: "length ps = length entry"
    using handlers by (rule map_handlers_length)
  have one: "ps = [hd ps] \<and> NewPromise (hd ps) \<noteq> hd ps
               \<and> settlement (NewPromise (hd ps)) = settlement (hd ps)"
    if "length entry = 1"
    using that len by (cases ps) (simp_all add: NewPromise_is_new)
  have ful: "\<exists>vs. v = Values vs \<and>
                 list_all2 (\<lambda>p x. \<exists>t'. settlement p = Fulfilled t' x \<and> t' \<le> t) ps vs"
    if "settlement (NewPromise (PromiseAll ps)) = Fulfilled t v" for t v
    using Promise_all_Fulfilled [of "map settlement ps" t v] that
    by (auto simp: list_all2_map1)
  have rej: "\<exists>q t' e'. q \<in> set ps \<and> settlement q = Rejected t' e' \<and> t' \<le> t
                       \<and> settlement (NewPromise (PromiseAll ps)) = Rejected t' e'"
    if "p \<in> set ps \<and> settlement p = Rejected t e" for p t e
  proof -
    from that have "Rejected t e \<in> set (map settlement ps)" by force
    from Promise_all_Rejected [OF this] obtain t' e' where
      "Promise_all (map settlement ps) = Rejected t' e'"
      "Rejected t' e' \<in> set (map settlement ps)" "t' \<le> t" by blast
    then show ?thesis by auto
  qed
  show ?thesis
    unfolding Let_def using d one ful rej by (cases "length entry > 1") auto
qed

text \<open>In the example store the action \<open>a/load\<close> has two handlers, one fulfilled at
  instant 5 and one rejected at instant 2, and the action \<open>wait\<close> has one.\<close>

theorem dispatch_settles_as_its_handlers_witness:
  "fst (dispatch example_env (String ''a/load'') (Number ''5'') (example_store True))
     = Inr (Awaitable (NewPromise (PromiseAll [Settles (Fulfilled 5 (Value (Number ''5''))),
                                               Settles (Rejected 2 (String ''no''))])))
   \<and> settlement (NewPromise (PromiseAll [Settles (Fulfilled 5 (Value (Number ''5''))),
                                         Settles (Rejected 2 (String ''no''))]))
       = Rejected 2 (String ''no'')
   \<and> fst (dispatch example_env (String ''wait'') (Number ''7'') (example_store True))
       = Inr (Awaitable (NewPromise (Settles (Fulfilled 5 (Value (Number ''7''))))))
   \<and> settlement (NewPromise (Settles (Fulfilled 5 (Value (Number ''7'')))))
       = Fulfilled 5 (Value (Number ''7''))"
proof -
  let ?s = "example_store True"
  let ?entry = "[(''slow'', \<lparr>local_namespace = ''a/'', local_path = [''a'']\<rparr>),
                 (''reject'', \<lparr>local_namespace = ''a/'', local_path = [''a'', ''b'']\<rparr>)]"
  let ?ps = "[Settles (Fulfilled 5 (Value (Number ''5''))), Settles (Rejected 2 (String ''no''))]"
  let ?before = "\<lambda>type payload.
     try_subscribers ''before'' example_env (List.map_filter sub_before (actionSubscribers ?s))
       (Object [(''type'', String type), (''payload'', payload)]) None ?s"
  let ?p5 = "if isObject (String ''a/load'') then String ''a/load'' else Number ''5''"
  let ?p7 = "if isObject (String ''wait'') then String ''wait'' else Number ''7''"
  have entry: "map_of (actions ?s) ''a/load'' = Some ?entry" "?entry \<noteq> []" by code_simp+
  have "fst (map_handlers example_env ?entry ?p5 (?before ''a/load'' ?p5)) = Inr ?ps"
    by code_simp
  then have handlers: "map_handlers example_env ?entry ?p5 (?before ''a/load'' ?p5)
      = (Inr ?ps, snd (map_handlers example_env ?entry ?p5 (?before ''a/load'' ?p5)))"
    by (simp add: prod_eq_iff)
  have n: "names_type (String ''a/load'') ''a/load''" by simp
  have gt: "length ?entry > 1" by simp
  note many = dispatch_settles_as_its_handlers [OF n entry handlers, unfolded Let_def]
  have d: "fst (dispatch example_env (String ''a/load'') (Number ''5'') ?s)
             = Inr (Awaitable (NewPromise (PromiseAll ?ps)))"
    using many [THEN conjunct1] by simp
  note rej = many [THEN conjunct2, THEN conjunct2, rule_format, OF gt, THEN conjunct2, rule_format]
  have "\<exists>q t' e'. q \<in> set ?ps \<and> settlement q = Rejected t' e' \<and> t' \<le> 2
                    \<and> settlement (NewPromise (PromiseAll ?ps)) = Rejected t' e'"
    using rej [of "Settles (Rejected 2 (String ''no''))" 2 "String ''no''"] by simp
  then have r: "settlement (NewPromise (PromiseAll ?ps)) = Rejected 2 (String ''no'')"
    by auto
  let ?entry1 = "[(''slow'', \<lparr>local_namespace = '''', local_path = []\<rparr>)]"
  let ?ps1 = "[Settles (Fulfilled 5 (Value (Number ''7'')))]"
  have entry1: "map_of (actions ?s) ''wait'' = Some ?entry1" "?entry1 \<noteq> []" by code_simp+
  have "fst (map_handlers example_env ?entry1 ?p7 (?before ''wait'' ?p7)) = Inr ?ps1"
    by code_simp
  then have handlers1: "map_handlers example_env ?entry1 ?p7 (?before ''wait'' ?p7)
      = (Inr ?ps1, snd (map_handlers example_env ?entry1 ?p7 (?before ''wait'' ?p7)))"
    by (simp add: prod_eq_iff)
  have n1: "names_type (String ''wait'') ''wait''" by simp
  have eq: "length ?entry1 = 1" by simp
  note single = dispatch_settles_as_its_handlers [OF n1 entry1 handlers1, unfolded Let_def]
  have d1: "fst (dispatch example_env (String ''wait'') (Number ''7'') ?s)
              = Inr (Awaitable (NewPromise (Settles (Fulfilled 5 (Value (Number ''7''))))))"
    using single [THEN conjunct1] by simp
  have r1: "settlement (NewPromise (Settles (Fulfilled 5 (Value (Number ''7'')))))
              = Fulfilled 5 (Value (Number ''7''))"
    using single [THEN conjunct2, THEN conjunct1, rule_format, OF eq] by simp
  from d r d1 r1 show ?thesis by (intro conjI)
qed

text \<open>The claim as stated fails: with exactly one handler, what \<open>dispatch\<close> returns
  is not the awaitable that the handler returned.\<close>

theorem dispatch_returns_a_new_promise:
  "map_of (actions (example_store True)) ''wait''
     = Some [(''slow'', \<lparr>local_namespace = '''', local_path = []\<rparr>)]
   \<and> fst (wrappedActionHandler example_env (''slow'', \<lparr>local_namespace = '''', local_path = []\<rparr>)
            (Number ''7'') (example_store True))
       = Inr (Settles (Fulfilled 5 (Value (Number ''7''))))
   \<and> fst (dispatch example_env (String ''wait'') (Number ''7'') (example_store True))
       = Inr (Awaitable (NewPromise (Settles (Fulfilled 5 (Value (Number ''7''))))))
   \<and> fst (dispatch example_env (String ''wait'') (Number ''7'') (example_store True))
       \<noteq> Inr (Awaitable (Settles (Fulfilled 5 (Value (Number ''7'')))))"
  by code_simp

section \<open>Installing a module over a property of the parent state\<close>

text \<open>
  C8, as amended. In a development build, when \<open>installModule\<close> installs a module
  that is neither the root nor hot at a path whose last key the operator \<open>in\<close> finds
  in the parent state, the block that sets the state puts the state of the module
  under that key (a key other than \<open>__proto__\<close>, which names no property) and
  writes the warning that the state field was overridden, and nothing else. Of what the whole call adds to the console, the warning comes first,
  after the error for a duplicate namespace when there is one: the overwrite is not
  silent. A hot installation, which is how the store is installed again after the
  first time, does not set any state: the root state is afterwards what it was.
\<close>

theorem overwrite_is_reported_in_development:
  "(DEV s \<and> path \<noteq> [] \<and> getNamespace (modules s) path = Inr ns
      \<and> getNestedState rootState (butlast path) = Inr parentState
      \<and> has_prop (last path) parentState = Inr True
    \<longrightarrow> (\<exists>rootState' es.
           installModule_state (installModule_namespace s ns path m) rootState path m
             = (Inr rootState',
                console_log
                  [ConsoleWarn (''[vuex] state field '' @ dquote @ last path @ dquote @
                      '' was overridden by a module with the same name at '' @
                      dquote @ join ''.'' path @ dquote)]
                  (installModule_namespace s ns path m))
         \<and> (last path \<noteq> ''__proto__'' \<longrightarrow> getNestedState rootState' path = Inr (mstate m))
         \<and> console (fst (snd (installModule s rootState path m False)))
             = console s
               @ (if namespaced m \<and> map_of (modulesNamespaceMap s) ns \<noteq> None
                  then [ConsoleError (''[vuex] duplicate namespace '' @ ns @
                          '' for the namespaced module '' @ join ''/'' path)]
                  else [])
               @ [ConsoleWarn (''[vuex] state field '' @ dquote @ last path @ dquote @
                      '' was overridden by a module with the same name at '' @
                      dquote @ join ''.'' path @ dquote)]
               @ es))
   \<and> snd (snd (installModule s rootState path m True)) = rootState"
proof (intro conjI impI)
  show "snd (snd (installModule s rootState path m True)) = rootState"
    using installModule_hot(1) [of True s rootState path m] by simp
next
  let ?warning = "ConsoleWarn (''[vuex] state field '' @ dquote @ last path @ dquote @
                      '' was overridden by a module with the same name at '' @
                      dquote @ join ''.'' path @ dquote)"
  let ?dup = "if namespaced m \<and> map_of (modulesNamespaceMap s) ns \<noteq> None
              then [ConsoleError (''[vuex] duplicate namespace '' @ ns @
                      '' for the namespaced module '' @ join ''/'' path)]
              else []"
  let ?s0 = "installModule_namespace s ns path m"
  assume h: "DEV s \<and> path \<noteq> [] \<and> getNamespace (modules s) path = Inr ns
      \<and> getNestedState rootState (butlast path) = Inr parentState
      \<and> has_prop (last path) parentState = Inr True"
  then have lk: "last_key path = last path" and bl: "butlast path @ [last path] = path"
    by (simp_all add: last_key_def)
  from h have dev: "DEV ?s0" by simp
  from h have c0: "console ?s0 = console s @ ?dup"
    by (simp add: installModule_namespace_def console_log_def)
  from installModule_state_warns [OF dev, of rootState path parentState m] h lk bl
  obtain rs' where st: "installModule_state ?s0 rootState path m = (Inr rs', console_log [?warning] ?s0)"
    and g: "getNestedState rs' path = Inr (mstate m)"
    by auto
  obtain e1 where e1: "console (installModule_register (console_log [?warning] ?s0) ns path m)
                         = console (console_log [?warning] ?s0) @ e1"
    using installModule_register_console [of "console_log [?warning] ?s0" ns path m] by blast
  obtain e2 where e2: "console (fst (snd (installModule_children
                 (installModule_register (console_log [?warning] ?s0) ns path m)
                 rs' path (children m) False)))
              = console (installModule_register (console_log [?warning] ?s0) ns path m) @ e2"
    using installModule_console(2) [of "installModule_register (console_log [?warning] ?s0) ns path m"
            rs' path "children m" False] by blast
  have i: "installModule s rootState path m False
             = installModule_children (installModule_register (console_log [?warning] ?s0) ns path m)
                 rs' path (children m) False"
    using h st by simp
  have "console (fst (snd (installModule s rootState path m False)))
          = console s @ ?dup @ [?warning] @ (e1 @ e2)"
    unfolding i e2 e1 by (simp add: console_log_def c0)
  with st g show "\<exists>rootState' es.
           installModule_state ?s0 rootState path m = (Inr rootState', console_log [?warning] ?s0)
         \<and> (last path \<noteq> ''__proto__'' \<longrightarrow> getNestedState rootState' path = Inr (mstate m))
         \<and> console (fst (snd (installModule s rootState path m False)))
             = console s @ ?dup @ [?warning] @ es"
    by blast
qed

text \<open>A store in the development build, with the module tree of the clashing
  options: installing the module \<open>a\<close> into a root state that has the property
  \<open>a\<close>.\<close>

theorem overwrite_is_reported_in_development_witness:
  "DEV (new_Store True (modules (store_of True clash_options)) False)
   \<and> getNamespace (modules (store_of True clash_options)) [''a''] = Inr ''''
   \<and> has_prop ''a'' (Object [(''a'', Number ''1'')]) = Inr True
   \<and> (\<exists>rootState' es.
         getNestedState rootState' [''a''] = Inr (Object [(''n'', Number ''2'')])
       \<and> console (fst (snd (installModule
                 (new_Store True (modules (store_of True clash_options)) False)
                 (Object [(''a'', Number ''1'')]) [''a'']
                 (new_Module (RawModule (Object [(''n'', Number ''2'')]) False [] [] [] []) False)
                 False)))
           = ConsoleWarn (''[vuex] state field '' @ dquote @ ''a'' @ dquote @
                   '' was overridden by a module with the same name at '' @
                   dquote @ ''a'' @ dquote) # es)"
proof -
  let ?s = "new_Store True (modules (store_of True clash_options)) False"
  let ?m = "new_Module (RawModule (Object [(''n'', Number ''2'')]) False [] [] [] []) False"
  have dev: "DEV ?s" by (simp add: new_Store_def)
  have ns: "getNamespace (modules (store_of True clash_options)) [''a''] = Inr ''''" by code_simp
  then have ns': "getNamespace (modules ?s) [''a''] = Inr ''''" by (simp add: new_Store_def)
  have parent: "getNestedState (Object [(''a'', Number ''1'')]) (butlast [''a''])
                  = Inr (Object [(''a'', Number ''1'')])" by simp
  have key: "has_prop (last [''a'']) (Object [(''a'', Number ''1'')]) = Inr True" by simp
  have nn: "\<not> namespaced ?m" by (simp add: namespaced_def new_Module_def)
  have c: "console ?s = []" by (simp add: new_Store_def)
  have pne: "[''a''] \<noteq> []" by simp
  from overwrite_is_reported_in_development
         [of ?s "[''a'']" "''''" "Object [(''a'', Number ''1'')]" "Object [(''a'', Number ''1'')]" ?m,
          THEN conjunct1, rule_format, OF conjI [OF dev conjI [OF pne conjI [OF ns' conjI [OF parent key]]]]]
  obtain rs' es where
    g: "getNestedState rs' [''a''] = Inr (mstate ?m)"
    and co: "console (fst (snd (installModule ?s (Object [(''a'', Number ''1'')]) [''a''] ?m False)))
          = console ?s
               @ (if namespaced ?m \<and> map_of (modulesNamespaceMap ?s) '''' \<noteq> None
                  then [ConsoleError (''[vuex] duplicate namespace '' @ '''' @
                          '' for the namespaced module '' @ join ''/'' [''a''])]
                  else [])
               @ [ConsoleWarn (''[vuex] state field '' @ dquote @ last [''a''] @ dquote @
                      '' was overridden by a module with the same name at '' @
                      dquote @ join ''.'' [''a''] @ dquote)]
               @ es"
    by (elim exE conjE) simp
  from g have g': "getNestedState rs' [''a''] = Inr (Object [(''n'', Number ''2'')])"
    by (simp add: new_Module_def)
  from co nn c have co': "console (fst (snd (installModule ?s (Object [(''a'', Number ''1'')]) [''a''] ?m False)))
          = ConsoleWarn (''[vuex] state field '' @ dquote @ ''a'' @ dquote @
                   '' was overridden by a module with the same name at '' @
                   dquote @ ''a'' @ dquote) # es"
    by (simp del: installModule.simps)
  from g' co' have "\<exists>rootState' es.
         getNestedState rootState' [''a''] = Inr (Object [(''n'', Number ''2'')])
       \<and> console (fst (snd (installModule ?s (Object [(''a'', Number ''1'')]) [''a''] ?m False)))
           = ConsoleWarn (''[vuex] state field '' @ dquote @ ''a'' @ dquote @
                   '' was overridden by a module with the same name at '' @
                   dquote @ ''a'' @ dquote) # es"
    by blast
  with dev ns show ?thesis by (simp del: installModule.simps)
qed

text \<open>The claim as stated fails in a production build: the constructor puts the
  state of the module \<open>a\<close> over the property \<open>a\<close> of the root state and writes
  nothing to the console.\<close>

theorem production_install_overwrites_silently:
  "rstate clash_options = Object [(''a'', Number ''1'')]
   \<and> createStore example_env False clash_options [] False = Inr (store_of False clash_options)
   \<and> state (store_of False clash_options) = Inr (Object [(''a'', Object [(''n'', Number ''2'')])])
   \<and> console (store_of False clash_options) = []"
  by code_simp

end
